theory Spec2Isabelle
  imports Complex_Main "HOL-Library.AList" "HOL-Library.List_Lexorder" "HOL-Library.Char_ord"
begin

section \<open>Python values shared by the components\<close>

text \<open>
  A Python exception is kept as the name of its class and its message: \<open>str(e)\<close> is
  the message, \<open>type(e).__name__\<close> the class name. The only exception class the
  repository declares is \<open>TaskCancelledException\<close> (app/core/task_manager.py); everything
  else the core raises is a plain \<open>Exception\<close> or a \<open>RuntimeError\<close>.
\<close>

datatype py_exception = PyExc (exc_type: string) (exc_msg: string)

definition TaskCancelledException :: "string \<Rightarrow> py_exception" where
  "TaskCancelledException m = PyExc ''TaskCancelledException'' m"

definition RuntimeError :: "string \<Rightarrow> py_exception" where
  "RuntimeError m = PyExc ''RuntimeError'' m"

definition is_task_cancelled :: "py_exception \<Rightarrow> bool" where
  "is_task_cancelled e = (exc_type e = ''TaskCancelledException'')"

text \<open>Truthiness of an optional string: \<open>None\<close> and the empty string are false.\<close>

fun truthy :: "string option \<Rightarrow> bool" where
  "truthy None = False"
| "truthy (Some s) = (s \<noteq> [])"

text \<open>Decimal rendering of an integer, as an f-string does it.\<close>

fun digit_char :: "nat \<Rightarrow> char" where
  "digit_char n = ''0123456789'' ! (n mod 10)"

fun str_nat :: "nat \<Rightarrow> string" where
  "str_nat n = (if n < 10 then [digit_char n] else str_nat (n div 10) @ [digit_char n])"

declare str_nat.simps [simp del]

definition str_int :: "int \<Rightarrow> string" where
  "str_int i = (if i < 0 then CHR ''-'' # str_nat (nat (- i)) else str_nat (nat i))"

section \<open>Task registry (app/core/task_manager.py)\<close>

record task =
  status :: string
  progress :: rat
  message :: string
  cancel_event :: bool
  start_time :: rat
  end_time :: "rat option"
  meta :: "(string \<times> string) list"

record task_manager =
  tasks :: "int \<rightharpoonup> task"
  finished_ids :: "int list"

definition MAX_HISTORY :: nat where
  "MAX_HISTORY = 20"

definition new_manager :: task_manager where
  "new_manager = \<lparr>tasks = Map.empty, finished_ids = []\<rparr>"

definition start_task :: "task_manager \<Rightarrow> int \<Rightarrow> (string \<times> string) list \<Rightarrow> rat \<Rightarrow> task_manager" where
  "start_task tm task_id m now =
     tm\<lparr>tasks := (tasks tm)(task_id \<mapsto>
        \<lparr>status = ''processing'', progress = 0, message = ''Starting...'',
         cancel_event = False, start_time = now, end_time = None, meta = m\<rparr>)\<rparr>"

definition update_progress :: "task_manager \<Rightarrow> int \<Rightarrow> rat \<Rightarrow> string option \<Rightarrow> task_manager" where
  "update_progress tm task_id p msg =
     (case tasks tm task_id of
        None \<Rightarrow> tm
      | Some t \<Rightarrow>
          tm\<lparr>tasks := (tasks tm)(task_id \<mapsto>
             t\<lparr>progress := p,
               message := (case msg of None \<Rightarrow> message t
                           | Some s \<Rightarrow> if s \<noteq> [] then s else message t)\<rparr>)\<rparr>)"


definition cancel_task :: "task_manager \<Rightarrow> int \<Rightarrow> task_manager \<times> bool" where
  "cancel_task tm task_id =
     (case tasks tm task_id of
        Some t \<Rightarrow>
          (tm\<lparr>tasks := (tasks tm)(task_id \<mapsto> t\<lparr>cancel_event := True, status := ''cancelling''\<rparr>)\<rparr>,
           True)
      | None \<Rightarrow> (tm, False))"

definition is_cancelled :: "task_manager \<Rightarrow> int \<Rightarrow> bool" where
  "is_cancelled tm task_id =
     (case tasks tm task_id of Some t \<Rightarrow> cancel_event t | None \<Rightarrow> False)"

definition check_cancel :: "task_manager \<Rightarrow> int \<Rightarrow> py_exception + unit" where
  "check_cancel tm task_id =
     (if is_cancelled tm task_id
      then Inl (TaskCancelledException (''Task '' @ str_int task_id @ '' cancelled by user''))
      else Inr ())"

text \<open>
  The eviction loop of \<open>finish_task\<close>: while the queue of finished ids is longer than
  \<open>MAX_HISTORY\<close>, pop its oldest id and drop that id's record (\<open>tasks.pop(old_id, None)\<close>).
\<close>

fun evict_history :: "(int \<rightharpoonup> task) \<Rightarrow> int list \<Rightarrow> (int \<rightharpoonup> task) \<times> int list" where
  "evict_history ts [] = (ts, [])"
| "evict_history ts (old_id # rest) =
     (if length (old_id # rest) > MAX_HISTORY
      then evict_history (ts(old_id := None)) rest
      else (ts, old_id # rest))"

definition finish_task :: "task_manager \<Rightarrow> int \<Rightarrow> rat \<Rightarrow> task_manager" where
  "finish_task tm task_id now =
     (case tasks tm task_id of
        None \<Rightarrow> tm
      | Some t \<Rightarrow>
          (let t1 = (if status t \<notin> {''cancelled'', ''failed''}
                     then t\<lparr>status := ''completed'', progress := 100\<rparr> else t);
               t2 = t1\<lparr>end_time := Some now\<rparr>;
               (ts, fs) = evict_history ((tasks tm)(task_id \<mapsto> t2)) (finished_ids tm @ [task_id])
           in tm\<lparr>tasks := ts, finished_ids := fs\<rparr>))"

definition remove_task :: "task_manager \<Rightarrow> int \<Rightarrow> task_manager" where
  "remove_task tm task_id =
     tm\<lparr>tasks := (tasks tm)(task_id := None), finished_ids := remove1 task_id (finished_ids tm)\<rparr>"

text \<open>The calls a client of the registry can make, and a run of a sequence of them.\<close>

datatype registry_call =
    StartTask int "(string \<times> string) list" rat
  | UpdateProgress int rat "string option"
  | CancelTask int
  | FinishTask int rat
  | RemoveTask int

fun registry_step :: "task_manager \<Rightarrow> registry_call \<Rightarrow> task_manager" where
  "registry_step tm (StartTask i m now) = start_task tm i m now"
| "registry_step tm (UpdateProgress i p msg) = update_progress tm i p msg"
| "registry_step tm (CancelTask i) = fst (cancel_task tm i)"
| "registry_step tm (FinishTask i now) = finish_task tm i now"
| "registry_step tm (RemoveTask i) = remove_task tm i"

definition registry_run :: "task_manager \<Rightarrow> registry_call list \<Rightarrow> task_manager" where
  "registry_run tm calls = foldl registry_step tm calls"

fun restarts :: "int \<Rightarrow> registry_call \<Rightarrow> bool" where
  "restarts i (StartTask j m now) = (i = j)"
| "restarts i c = False"


subsection \<open>The cancellation flag\<close>

text \<open>
  No call but a new \<open>start_task\<close> for the same id ever clears a cancellation flag: a
  record either is gone from the registry or still carries the flag.
\<close>

definition flag_inv :: "task_manager \<Rightarrow> int \<Rightarrow> bool" where
  "flag_inv tm i = (case tasks tm i of None \<Rightarrow> True | Some t \<Rightarrow> cancel_event t)"

lemma evict_last_kept:
  "evict_history ts (fs @ [i]) = (ts', fs') \<Longrightarrow> i \<notin> set fs \<Longrightarrow> ts i = Some t \<Longrightarrow> ts' i = Some t"
proof (induction fs arbitrary: ts)
  case Nil
  then show ?case by (auto simp: MAX_HISTORY_def)
next
  case (Cons a fs)
  then show ?case by (auto split: if_splits)
qed

lemma evict_only_drops:
  "evict_history ts fs = (ts', fs') \<Longrightarrow> ts' i = Some t \<Longrightarrow> ts i = Some t"
proof (induction fs arbitrary: ts)
  case Nil
  then show ?case by simp
next
  case (Cons a fs)
  show ?case
  proof (cases "length (a # fs) > MAX_HISTORY")
    case True
    then have "evict_history (ts(a := None)) fs = (ts', fs')" using Cons.prems(1) by simp
    from Cons.IH[OF this Cons.prems(2)] show ?thesis by (simp split: if_splits)
  next
    case False
    then show ?thesis using Cons.prems by simp
  qed
qed

lemma finish_task_unfold:
  assumes "tasks tm j = Some u"
  obtains ts fs where
    "evict_history ((tasks tm)(j \<mapsto>
        (if status u \<notin> {''cancelled'', ''failed''}
         then u\<lparr>status := ''completed'', progress := 100\<rparr> else u)\<lparr>end_time := Some now\<rparr>))
       (finished_ids tm @ [j]) = (ts, fs)"
    and "tasks (finish_task tm j now) = ts"
proof -
  let ?u = "(if status u \<notin> {''cancelled'', ''failed''}
         then u\<lparr>status := ''completed'', progress := 100\<rparr> else u)\<lparr>end_time := Some now\<rparr>"
  obtain ts fs where ev: "evict_history ((tasks tm)(j \<mapsto> ?u)) (finished_ids tm @ [j]) = (ts, fs)"
    by (cases "evict_history ((tasks tm)(j \<mapsto> ?u)) (finished_ids tm @ [j])") auto
  moreover have "tasks (finish_task tm j now) = ts"
    using assms ev by (simp add: finish_task_def Let_def)
  ultimately show ?thesis using that by blast
qed

lemma step_flag_inv:
  "flag_inv tm i \<Longrightarrow> \<not> restarts i c \<Longrightarrow> flag_inv (registry_step tm c) i"
proof (cases c)
  case (FinishTask j now)
  assume inv: "flag_inv tm i"
  show ?thesis
  proof (cases "tasks tm j")
    case None
    then show ?thesis using inv FinishTask by (simp add: finish_task_def)
  next
    case (Some u)
    from finish_task_unfold[OF Some, of now] obtain ts fs where
      ev: "evict_history ((tasks tm)(j \<mapsto>
        (if status u \<notin> {''cancelled'', ''failed''}
         then u\<lparr>status := ''completed'', progress := 100\<rparr> else u)\<lparr>end_time := Some now\<rparr>))
       (finished_ids tm @ [j]) = (ts, fs)"
      and eq: "tasks (finish_task tm j now) = ts" by blast
    have "cancel_event t" if "ts i = Some t" for t
    proof -
      from evict_only_drops[OF ev that] show ?thesis
        using inv Some by (auto simp: flag_inv_def split: if_splits option.splits)
    qed
    then show ?thesis using FinishTask eq by (auto simp: flag_inv_def split: option.splits)
  qed
qed (auto simp: flag_inv_def start_task_def update_progress_def cancel_task_def remove_task_def
      split: option.splits)

lemma run_flag_inv:
  "flag_inv tm i \<Longrightarrow> \<forall>c \<in> set calls. \<not> restarts i c \<Longrightarrow> flag_inv (registry_run tm calls) i"
  unfolding registry_run_def
  by (induction calls arbitrary: tm) (auto simp: step_flag_inv)

lemma cancel_sets_flag:
  "tasks tm i = Some t \<Longrightarrow> flag_inv (fst (cancel_task tm i)) i"
  by (simp add: cancel_task_def flag_inv_def)

text \<open>
  A run that overflows the bounded history: job 1 is finished, then twenty more jobs are
  started and finished, so the twenty-first finish pops id 1 off the queue and drops its record.
\<close>

definition history_overflow_calls :: "registry_call list" where
  "history_overflow_calls =
     [FinishTask 1 0,
      StartTask 2 [] 0, FinishTask 2 0, StartTask 3 [] 0, FinishTask 3 0,
      StartTask 4 [] 0, FinishTask 4 0, StartTask 5 [] 0, FinishTask 5 0,
      StartTask 6 [] 0, FinishTask 6 0, StartTask 7 [] 0, FinishTask 7 0,
      StartTask 8 [] 0, FinishTask 8 0, StartTask 9 [] 0, FinishTask 9 0,
      StartTask 10 [] 0, FinishTask 10 0, StartTask 11 [] 0, FinishTask 11 0,
      StartTask 12 [] 0, FinishTask 12 0, StartTask 13 [] 0, FinishTask 13 0,
      StartTask 14 [] 0, FinishTask 14 0, StartTask 15 [] 0, FinishTask 15 0,
      StartTask 16 [] 0, FinishTask 16 0, StartTask 17 [] 0, FinishTask 17 0,
      StartTask 18 [] 0, FinishTask 18 0, StartTask 19 [] 0, FinishTask 19 0,
      StartTask 20 [] 0, FinishTask 20 0, StartTask 21 [] 0, FinishTask 21 0]"

text \<open>
  C5, as stated, fails: job 1 is registered, its cancellation is requested (the call
  returns \<open>True\<close>), and after the finishing calls of \<open>history_overflow_calls\<close> the
  checkpoint \<open>check_cancel 1\<close> returns normally instead of raising.
\<close>

theorem check_cancel_after_eviction_counterexample:
  "tasks (start_task new_manager 1 [] 0) 1 \<noteq> None \<and>
   snd (cancel_task (start_task new_manager 1 [] 0) 1) = True \<and>
   check_cancel
     (registry_run (fst (cancel_task (start_task new_manager 1 [] 0) 1)) history_overflow_calls) 1 =
     Inr ()"
  by (simp add: history_overflow_calls_def registry_run_def start_task_def new_manager_def
      cancel_task_def finish_task_def MAX_HISTORY_def check_cancel_def is_cancelled_def)

text \<open>
  C5, amended: for a registered job whose cancellation has been requested, after any
  sequence of registry calls (progress updates, cancel requests, finishing or removing any
  job, starting other jobs) that does not start the same id anew, \<open>check_cancel\<close> raises
  \<open>TaskCancelledException\<close> for as long as the job's record is still in the registry.
\<close>

theorem cancel_flag_persists_while_registered:
  assumes "tasks tm i = Some t"
    and "\<forall>c \<in> set calls. \<not> restarts i c"
    and "tasks (registry_run (fst (cancel_task tm i)) calls) i \<noteq> None"
  shows "check_cancel (registry_run (fst (cancel_task tm i)) calls) i =
           Inl (TaskCancelledException (''Task '' @ str_int i @ '' cancelled by user''))"
proof -
  have "flag_inv (registry_run (fst (cancel_task tm i)) calls) i"
    using run_flag_inv[OF cancel_sets_flag[OF assms(1)] assms(2)] .
  with assms(3) show ?thesis
    by (auto simp: flag_inv_def check_cancel_def is_cancelled_def split: option.splits)
qed

theorem cancel_flag_persists_witness:
  "tasks (start_task new_manager 7 [] 0) 7 \<noteq> None \<and>
   check_cancel (registry_run (fst (cancel_task (start_task new_manager 7 [] 0) 7))
       [UpdateProgress 7 30 (Some ''Downloading''), StartTask 8 [] 1, FinishTask 7 2, CancelTask 8,
        FinishTask 8 3]) 7 =
     Inl (TaskCancelledException ''Task 7 cancelled by user'')"
proof -
  let ?tm = "start_task new_manager 7 [] 0"
  let ?calls = "[UpdateProgress 7 30 (Some ''Downloading''), StartTask 8 [] 1, FinishTask 7 2,
                 CancelTask 8, FinishTask 8 3]"
  have a: "tasks ?tm 7 = Some \<lparr>status = ''processing'', progress = 0, message = ''Starting...'',
         cancel_event = False, start_time = 0, end_time = None, meta = []\<rparr>"
    by (simp add: start_task_def new_manager_def)
  have b: "\<forall>c \<in> set ?calls. \<not> restarts 7 c" by simp
  have c: "tasks (registry_run (fst (cancel_task ?tm 7)) ?calls) 7 \<noteq> None"
    by (simp add: registry_run_def start_task_def new_manager_def cancel_task_def
        finish_task_def MAX_HISTORY_def update_progress_def)
  have d: "str_int 7 = ''7''" by (simp add: str_int_def str_nat.simps)
  show ?thesis using cancel_flag_persists_while_registered[OF a b c] a d by simp
qed

subsection \<open>The statuses the registry itself writes\<close>























section \<open>ASR routing client: engine selection (app/asr/client.py)\<close>

record asr_config =
  priority :: "string list"
  strict_mode :: bool
  active_engine :: "string option"
  disabled_engines :: "string list"

text \<open>\<open>self.availability.get(engine, False)\<close>\<close>

definition avail_get :: "(string \<rightharpoonup> bool) \<Rightarrow> string \<Rightarrow> bool" where
  "avail_get availability e = (case availability e of None \<Rightarrow> False | Some b \<Rightarrow> b)"

definition quoted :: "string \<Rightarrow> string" where
  "quoted s = [CHR 0x27] @ s @ [CHR 0x27]"

definition check_availability :: "(string \<rightharpoonup> bool) \<Rightarrow> string \<Rightarrow> py_exception + string" where
  "check_availability availability engine =
     (if avail_get availability engine then Inr engine
      else Inl (RuntimeError (''Engine '' @ quoted engine @ '' is offline.'')))"

text \<open>The loop over \<open>self.config["priority"]\<close>.\<close>

fun scan_priority ::
  "(string \<rightharpoonup> bool) \<Rightarrow> string list \<Rightarrow> string option \<Rightarrow> string list \<Rightarrow> string option" where
  "scan_priority availability disabled_list active [] = None"
| "scan_priority availability disabled_list active (e # es) =
     (if e \<in> set disabled_list \<and> Some e \<noteq> active
      then scan_priority availability disabled_list active es
      else if avail_get availability e then Some e
      else scan_priority availability disabled_list active es)"

definition select_worker ::
  "asr_config \<Rightarrow> (string \<rightharpoonup> bool) \<Rightarrow> string option \<Rightarrow> py_exception + string" where
  "select_worker cfg availability preferred_engine =
     (let disabled_list = disabled_engines cfg in
      case (if truthy preferred_engine then preferred_engine else None) of
        Some p \<Rightarrow> check_availability availability p
      | None \<Rightarrow>
          (let strict = strict_mode cfg; active = active_engine cfg in
           case (if strict \<and> truthy active then active else None) of
             Some a \<Rightarrow>
               (case check_availability availability a of
                  Inr e \<Rightarrow> Inr e
                | Inl _ \<Rightarrow>
                    Inl (RuntimeError (''Strict Mode: Active engine '' @ quoted a @ '' is offline.'')))
           | None \<Rightarrow>
               (case scan_priority availability disabled_list active (priority cfg) of
                  Some e \<Rightarrow> Inr e
                | None \<Rightarrow>
                    (case (if truthy active then active else None) of
                       Some a \<Rightarrow>
                         if avail_get availability a then Inr a
                         else Inl (RuntimeError
                           ''No available ASR engines (checked priority list and skipped disabled ones).'')
                     | None \<Rightarrow>
                         Inl (RuntimeError
                           ''No available ASR engines (checked priority list and skipped disabled ones).'')))))"

text \<open>
  An engine the priority scan may return: it is not skipped as disabled (or it is the
  pinned active engine) and the last health probe found it available.
\<close>

definition eligible :: "asr_config \<Rightarrow> (string \<rightharpoonup> bool) \<Rightarrow> string \<Rightarrow> bool" where
  "eligible cfg availability e =
     ((e \<notin> set (disabled_engines cfg) \<or> active_engine cfg = Some e) \<and> avail_get availability e)"

definition no_engine_error :: py_exception where
  "no_engine_error =
     RuntimeError ''No available ASR engines (checked priority list and skipped disabled ones).''"

lemma scan_priority_find:
  "scan_priority av (disabled_engines cfg) (active_engine cfg) ps = find (eligible cfg av) ps"
  by (induction ps) (auto simp: eligible_def)

lemma select_worker_scan:
  assumes "\<not> truthy preferred" and "\<not> strict_mode cfg"
  shows "select_worker cfg av preferred =
     (case find (eligible cfg av) (priority cfg) of
        Some e \<Rightarrow> Inr e
      | None \<Rightarrow>
          (case active_engine cfg of
             Some a \<Rightarrow> if a \<noteq> [] \<and> avail_get av a then Inr a else Inl no_engine_error
           | None \<Rightarrow> Inl no_engine_error))"
  unfolding select_worker_def Let_def scan_priority_find
  using assms
  by (cases preferred; cases "active_engine cfg")
     (auto simp: no_engine_error_def split: option.splits)

lemma select_worker_strict:
  assumes "\<not> truthy preferred" and "strict_mode cfg" and "active_engine cfg = Some a" and "a \<noteq> []"
  shows "select_worker cfg av preferred =
     (if avail_get av a then Inr a
      else Inl (RuntimeError (''Strict Mode: Active engine '' @ quoted a @ '' is offline.'')))"
  using assms
  by (cases preferred) (auto simp: select_worker_def check_availability_def)

text \<open>
  C1: with no caller override and strict mode off, \<open>select_worker\<close> returns the first
  engine of the priority list that is not skipped as disabled (the pinned active engine
  is never skipped) and is available; whatever it returns is either that first engine
  or, when the scan found none, the pinned active engine. With priority list
  \<open>[A, B, C]\<close>, \<open>A\<close> down, \<open>B\<close> and \<open>C\<close> up (\<open>B\<close> not disabled), it returns \<open>B\<close>. With
  strict mode on and the pinned active engine \<open>A\<close> down, it raises and does not fall back.
\<close>

theorem select_worker_priority_order:
  assumes "\<not> truthy preferred"
  shows "(\<not> strict_mode cfg \<longrightarrow>
            (\<forall>i < length (priority cfg).
               eligible cfg av (priority cfg ! i) \<and> (\<forall>j < i. \<not> eligible cfg av (priority cfg ! j))
               \<longrightarrow> select_worker cfg av preferred = Inr (priority cfg ! i)) \<and>
            (\<forall>e. select_worker cfg av preferred = Inr e \<longrightarrow>
               (\<exists>i < length (priority cfg). priority cfg ! i = e \<and> eligible cfg av e \<and>
                    (\<forall>j < i. \<not> eligible cfg av (priority cfg ! j))) \<or>
               ((\<forall>x \<in> set (priority cfg). \<not> eligible cfg av x) \<and>
                  active_engine cfg = Some e \<and> avail_get av e))) \<and>
         (\<not> strict_mode cfg \<and> priority cfg = [A, B, C] \<and>
            \<not> avail_get av A \<and> avail_get av B \<and> avail_get av C \<and>
            (B \<notin> set (disabled_engines cfg) \<or> active_engine cfg = Some B)
            \<longrightarrow> select_worker cfg av preferred = Inr B) \<and>
         (strict_mode cfg \<and> active_engine cfg = Some A \<and> A \<noteq> [] \<and> \<not> avail_get av A
            \<longrightarrow> select_worker cfg av preferred =
                  Inl (RuntimeError (''Strict Mode: Active engine '' @ quoted A @ '' is offline.'')))"
proof (intro conjI impI allI)
  fix i
  assume ns: "\<not> strict_mode cfg" and i: "i < length (priority cfg)"
    and el: "eligible cfg av (priority cfg ! i) \<and> (\<forall>j < i. \<not> eligible cfg av (priority cfg ! j))"
  have "find (eligible cfg av) (priority cfg) = Some (priority cfg ! i)"
    unfolding find_Some_iff using i el by blast
  then show "select_worker cfg av preferred = Inr (priority cfg ! i)"
    using select_worker_scan[OF assms ns] by simp
next
  fix e
  assume ns: "\<not> strict_mode cfg" and r: "select_worker cfg av preferred = Inr e"
  show "(\<exists>i < length (priority cfg). priority cfg ! i = e \<and> eligible cfg av e \<and>
                    (\<forall>j < i. \<not> eligible cfg av (priority cfg ! j))) \<or>
               ((\<forall>x \<in> set (priority cfg). \<not> eligible cfg av x) \<and>
                  active_engine cfg = Some e \<and> avail_get av e)"
  proof (cases "find (eligible cfg av) (priority cfg)")
    case None
    then have "\<forall>x \<in> set (priority cfg). \<not> eligible cfg av x"
      by (simp add: find_None_iff)
    moreover have "active_engine cfg = Some e \<and> avail_get av e"
      using r select_worker_scan[OF assms ns] None
      by (auto split: option.splits if_splits)
    ultimately show ?thesis by blast
  next
    case (Some x)
    then have "x = e" using r select_worker_scan[OF assms ns] by simp
    with Some show ?thesis unfolding find_Some_iff by blast
  qed
next
  assume h: "\<not> strict_mode cfg \<and> priority cfg = [A, B, C] \<and>
            \<not> avail_get av A \<and> avail_get av B \<and> avail_get av C \<and>
            (B \<notin> set (disabled_engines cfg) \<or> active_engine cfg = Some B)"
  then have "find (eligible cfg av) (priority cfg) = Some B"
    by (auto simp: eligible_def)
  then show "select_worker cfg av preferred = Inr B"
    using select_worker_scan[OF assms] h by simp
next
  assume h: "strict_mode cfg \<and> active_engine cfg = Some A \<and> A \<noteq> [] \<and> \<not> avail_get av A"
  then show "select_worker cfg av preferred =
                  Inl (RuntimeError (''Strict Mode: Active engine '' @ quoted A @ '' is offline.''))"
    using select_worker_strict[OF assms, of cfg A av] by simp
qed

definition demo_config :: asr_config where
  "demo_config = \<lparr>priority = [''sensevoice'', ''whisper'', ''bailian''], strict_mode = False,
     active_engine = Some ''sensevoice'', disabled_engines = []\<rparr>"

definition demo_availability :: "string \<rightharpoonup> bool" where
  "demo_availability = [''sensevoice'' \<mapsto> False, ''whisper'' \<mapsto> True, ''bailian'' \<mapsto> True]"

theorem select_worker_priority_order_witness:
  "select_worker demo_config demo_availability None = Inr ''whisper'' \<and>
   select_worker (demo_config\<lparr>strict_mode := True\<rparr>) demo_availability None =
     Inl (RuntimeError ''Strict Mode: Active engine 'sensevoice' is offline.'')"
proof -
  have n: "\<not> truthy None" by simp
  have a: "\<not> avail_get demo_availability ''sensevoice''" "avail_get demo_availability ''whisper''"
    "avail_get demo_availability ''bailian''"
    by (simp_all add: avail_get_def demo_availability_def)
  have 1: "select_worker demo_config demo_availability None = Inr ''whisper''"
    using select_worker_priority_order[OF n, of demo_config demo_availability
        "''sensevoice''" "''whisper''" "''bailian''"] a
    by (simp add: demo_config_def)
  have 2: "select_worker (demo_config\<lparr>strict_mode := True\<rparr>) demo_availability None =
     Inl (RuntimeError (''Strict Mode: Active engine '' @ quoted ''sensevoice'' @ '' is offline.''))"
    using select_worker_priority_order[OF n, of "demo_config\<lparr>strict_mode := True\<rparr>" demo_availability
        "''sensevoice''" "''whisper''" "''bailian''"] a
    by (simp add: demo_config_def)
  show ?thesis using 1 2 by (simp add: quoted_def)
qed

section \<open>Strings and paths (Python \<open>str\<close>, \<open>posixpath\<close>)\<close>

text \<open>
  A Python string is kept as the bytes of its UTF-8 encoding. Comparing for equality,
  concatenating, testing for a prefix or for an ASCII substring and splitting on an ASCII
  separator give on the encoded strings what Python gives on the strings. The library
  functions that look at the characters themselves (\<open>str.lower\<close>, \<open>int\<close>, \<open>float\<close>) are
  not defined here; they are taken as given, in the library record below. The path
  functions are the POSIX ones (\<open>posixpath.join\<close>, \<open>basename\<close>, \<open>dirname\<close>, \<open>splitext\<close>).
\<close>

fun starts_with :: "string \<Rightarrow> string \<Rightarrow> bool" where
  "starts_with s [] = True"
| "starts_with [] (p # ps) = False"
| "starts_with (c # cs) (p # ps) = (c = p \<and> starts_with cs ps)"

text \<open>\<open>needle in haystack\<close>\<close>

fun py_in :: "string \<Rightarrow> string \<Rightarrow> bool" where
  "py_in needle [] = (needle = [])"
| "py_in needle (c # cs) = (starts_with (c # cs) needle \<or> py_in needle cs)"

text \<open>\<open>s.split(sep)\<close> for a one-character separator.\<close>

fun split_on :: "char \<Rightarrow> string \<Rightarrow> string list" where
  "split_on sep [] = [[]]"
| "split_on sep (c # cs) =
     (if c = sep then [] # split_on sep cs
      else (case split_on sep cs of
              [] \<Rightarrow> [[c]]
            | f # fs \<Rightarrow> (c # f) # fs))"

definition basename :: "string \<Rightarrow> string" where
  "basename p = rev (takeWhile (\<lambda>c. c \<noteq> CHR ''/'') (rev p))"

text \<open>
  \<open>posixpath.dirname\<close>: the part up to the last slash, without its trailing slashes
  unless it consists of slashes only.
\<close>

definition dirname :: "string \<Rightarrow> string" where
  "dirname p =
     (let head = rev (dropWhile (\<lambda>c. c \<noteq> CHR ''/'') (rev p))
      in if head \<noteq> [] \<and> list_ex (\<lambda>c. c \<noteq> CHR ''/'') head
         then rev (dropWhile (\<lambda>c. c = CHR ''/'') (rev head)) else head)"

text \<open>
  \<open>os.path.splitext(p)[1]\<close>: the extension starts at the last dot of the last path
  component; leading dots of that component do not start an extension.
\<close>

definition splitext_ext :: "string \<Rightarrow> string" where
  "splitext_ext p =
     (let b = dropWhile (\<lambda>c. c = CHR ''.'') (basename p)
      in if CHR ''.'' \<in> set b then CHR ''.'' # rev (takeWhile (\<lambda>c. c \<noteq> CHR ''.'') (rev b)) else [])"

definition path_join :: "string \<Rightarrow> string \<Rightarrow> string" where
  "path_join a b =
     (if starts_with b ''/'' then b
      else if a = [] \<or> last a = CHR ''/'' then a @ b
      else a @ ''/'' @ b)"

definition replace_backslash :: "string \<Rightarrow> string" where
  "replace_backslash s = map (\<lambda>c. if c = CHR 0x5C then CHR ''/'' else c) s"

section \<open>The Python library\<close>

text \<open>
  A naive \<open>datetime\<close>, as \<open>datetime.now()\<close> returns it, with the two renderings the code
  uses: \<open>strftime("%Y-%m-%d %H:%M:%S")\<close>, and \<open>isoformat(" ")\<close>, which is the text the
  \<open>sqlite3\<close> module binds for a \<open>datetime\<close> query parameter (it adds the microseconds
  when they are not zero). Years are the four-digit ones.
\<close>

record datetime =
  dt_year :: nat
  dt_month :: nat
  dt_day :: nat
  dt_hour :: nat
  dt_minute :: nat
  dt_second :: nat
  dt_microsecond :: nat

definition zfill :: "nat \<Rightarrow> nat \<Rightarrow> string" where
  "zfill width n = replicate (width - length (str_nat n)) CHR ''0'' @ str_nat n"

definition strftime_seconds :: "datetime \<Rightarrow> string" where
  "strftime_seconds d =
     zfill 4 (dt_year d) @ ''-'' @ zfill 2 (dt_month d) @ ''-'' @ zfill 2 (dt_day d) @ '' '' @
     zfill 2 (dt_hour d) @ '':'' @ zfill 2 (dt_minute d) @ '':'' @ zfill 2 (dt_second d)"

definition isoformat_space :: "datetime \<Rightarrow> string" where
  "isoformat_space d =
     strftime_seconds d @
     (if dt_microsecond d = 0 then [] else ''.'' @ zfill 6 (dt_microsecond d))"

text \<open>
  \<open>timedelta(days=n)\<close>, in seconds: the constructor raises \<open>OverflowError\<close> when the
  magnitude of \<open>n\<close> exceeds 999999999.
\<close>

definition OverflowError :: "string \<Rightarrow> py_exception" where
  "OverflowError m = PyExc ''OverflowError'' m"

definition timedelta_days :: "int \<Rightarrow> py_exception + int" where
  "timedelta_days n =
     (if \<bar>n\<bar> > 999999999
      then Inl (OverflowError (''days='' @ str_int n @ ''; must have magnitude <= 999999999''))
      else Inr (n * 86400))"

text \<open>What \<open>float(s)\<close> can return.\<close>

datatype py_float = Float rat | PosInf | NegInf | NaN

text \<open>
  The library functions whose results the code only passes on or branches on are taken
  as given:
  \<^item> \<open>str_lower\<close>: \<open>s.lower()\<close>;
  \<^item> \<open>int_of_str\<close>: \<open>int(s)\<close>, with \<open>None\<close> for \<open>ValueError\<close>;
  \<^item> \<open>float_of_str\<close>: \<open>float(s)\<close>, with \<open>None\<close> for \<open>ValueError\<close>;
  \<^item> \<open>md5_hexdigest\<close>: \<open>hashlib.md5(s.encode("utf-8")).hexdigest()\<close>;
  \<^item> \<open>datetime_minus d n\<close>: \<open>d - timedelta(seconds=n)\<close>, which raises \<open>OverflowError\<close>
    when the result is not a date of the years 1 to 9999;
  \<^item> \<open>iso_before s d\<close>: \<open>datetime.fromisoformat(s)\<close> returns a naive \<open>datetime\<close> that is
    earlier than \<open>d\<close> (false also when it raises \<open>ValueError\<close>, or returns an aware
    \<open>datetime\<close>, whose comparison with \<open>d\<close> raises \<open>TypeError\<close>).
\<close>

record py_lib =
  str_lower :: "string \<Rightarrow> string"
  int_of_str :: "string \<Rightarrow> int option"
  float_of_str :: "string \<Rightarrow> py_float option"
  md5_hexdigest :: "string \<Rightarrow> string"
  datetime_minus :: "datetime \<Rightarrow> int \<Rightarrow> py_exception + datetime"
  iso_before :: "string \<Rightarrow> datetime \<Rightarrow> bool"

subsection \<open>The library at the values of the examples\<close>

text \<open>
  The examples below run the code on concrete inputs. They use the library through
  \<open>demo_lib\<close>, which holds its values at the arguments that occur in the examples:
  \<open>str.lower\<close> on ASCII text; \<open>int("5") = 5\<close>, \<open>int("3") = 3\<close> and
  \<open>int("1000000000") = 1000000000\<close>, while \<open>int("3.5")\<close> and \<open>int("5:abc")\<close> raise
  \<open>ValueError\<close>; \<open>float("2.0") = 2.0\<close>, \<open>float("0") = 0.0\<close> and \<open>float("inf")\<close>;
  the MD5 digest of \<open>BV1GJ411x7h7\<close>; one hour before noon of 4 November 2026; and the
  ISO text of eight o'clock that morning, which is earlier than noon.
\<close>

definition lower_char :: "char \<Rightarrow> char" where
  "lower_char c =
     (case map_of (zip ''ABCDEFGHIJKLMNOPQRSTUVWXYZ'' ''abcdefghijklmnopqrstuvwxyz'') c of
        Some d \<Rightarrow> d
      | None \<Rightarrow> c)"

definition ascii_lower :: "string \<Rightarrow> string" where
  "ascii_lower s = map lower_char s"

definition demo_int :: "string \<Rightarrow> int option" where
  "demo_int = map_of [(''5'', 5), (''3'', 3), (''1000000000'', 1000000000)]"

definition demo_float :: "string \<Rightarrow> py_float option" where
  "demo_float = map_of [(''2.0'', Float 2), (''0'', Float 0), (''inf'', PosInf)]"

definition demo_md5 :: "string \<Rightarrow> string" where
  "demo_md5 s = (if s = ''BV1GJ411x7h7'' then ''605240293d3528b11c37597029167ab2'' else [])"

definition demo_now :: datetime where
  "demo_now = \<lparr>dt_year = 2026, dt_month = 11, dt_day = 4, dt_hour = 12, dt_minute = 0,
                dt_second = 0, dt_microsecond = 0\<rparr>"

definition demo_minus :: "datetime \<Rightarrow> int \<Rightarrow> py_exception + datetime" where
  "demo_minus d n =
     (if d = demo_now \<and> n = 3600 then Inr (demo_now\<lparr>dt_hour := 11\<rparr>)
      else Inl (OverflowError ''date value out of range''))"

definition demo_iso_before :: "string \<Rightarrow> datetime \<Rightarrow> bool" where
  "demo_iso_before s d = (s = ''2026-11-04T08:00:00'' \<and> d = demo_now)"

definition demo_lib :: py_lib where
  "demo_lib = \<lparr>str_lower = ascii_lower, int_of_str = demo_int, float_of_str = demo_float,
                md5_hexdigest = demo_md5, datetime_minus = demo_minus,
                iso_before = demo_iso_before\<rparr>"

lemma demo_lib_simps [simp]:
  "str_lower demo_lib = ascii_lower"
  "int_of_str demo_lib = demo_int"
  "float_of_str demo_lib = demo_float"
  "md5_hexdigest demo_lib = demo_md5"
  "datetime_minus demo_lib = demo_minus"
  "iso_before demo_lib = demo_iso_before"
  by (simp_all add: demo_lib_def)

section \<open>Download retry wrapper (app/downloaders/_utils.py)\<close>

definition is_cancel_signal :: "py_lib \<Rightarrow> py_exception \<Rightarrow> bool" where
  "is_cancel_signal lib e =
     (py_in ''cancelled'' (str_lower lib (exc_msg e)) \<or> exc_type e = ''TaskCancelledException'')"

text \<open>\<open>check_and_reraise_cancel\<close>: raises its argument again, or returns \<open>False\<close>.\<close>

definition check_and_reraise_cancel :: "py_lib \<Rightarrow> py_exception \<Rightarrow> py_exception + bool" where
  "check_and_reraise_cancel lib e = (if is_cancel_signal lib e then Inl e else Inr False)"

definition NETWORK_KEYWORDS :: "string list" where
  "NETWORK_KEYWORDS = [''timeout'', ''connection'', ''network'', ''timed out'', ''urlopen'']"

definition is_network :: "py_lib \<Rightarrow> py_exception \<Rightarrow> bool" where
  "is_network lib e = list_ex (\<lambda>kw. py_in kw (str_lower lib (exc_msg e))) NETWORK_KEYWORDS"

text \<open>
  The wrapped function is not pure: \<open>func k\<close> is what its call number \<open>k\<close> (from 0)
  does, a raised exception or a returned value. The wrapper's outcome is what it raises or
  returns (\<open>None\<close> for its own \<open>return None\<close>), the list of \<open>time.sleep\<close> delays it made,
  and the number of times it called the function.
\<close>

function retry_from ::
  "py_lib \<Rightarrow> (nat \<Rightarrow> py_exception + 'a) \<Rightarrow> nat \<Rightarrow> int \<Rightarrow> nat \<Rightarrow> int list
     \<Rightarrow> (py_exception + 'a option) \<times> int list \<times> nat" where
  "retry_from lib func max_retries retry_delay attempt sleeps =
     (if attempt < max_retries then
        (case func attempt of
           Inr v \<Rightarrow> (Inr (Some v), sleeps, attempt + 1)
         | Inl e \<Rightarrow>
             (case check_and_reraise_cancel lib e of
                Inl e' \<Rightarrow> (Inl e', sleeps, attempt + 1)
              | Inr _ \<Rightarrow>
                  if is_network lib e \<and> int attempt < int max_retries - 1
                  then retry_from lib func max_retries retry_delay (attempt + 1)
                         (sleeps @ [retry_delay * 2 ^ attempt])
                  else (Inr None, sleeps, attempt + 1)))
      else (Inr None, sleeps, attempt))"
  by pat_completeness auto
termination
  by (relation "measure (\<lambda>(lib, func, max_retries, retry_delay, attempt, sleeps). max_retries - attempt)")
     auto

declare retry_from.simps [simp del]

definition retry_on_network_error ::
  "py_lib \<Rightarrow> nat \<Rightarrow> int \<Rightarrow> (nat \<Rightarrow> py_exception + 'a)
     \<Rightarrow> (py_exception + 'a option) \<times> int list \<times> nat" where
  "retry_on_network_error lib max_retries retry_delay func =
     retry_from lib func max_retries retry_delay 0 []"

subsection \<open>Which errors are retried\<close>

definition retryable :: "py_lib \<Rightarrow> py_exception \<Rightarrow> bool" where
  "retryable lib e = (\<not> is_cancel_signal lib e \<and> is_network lib e)"

lemma retry_from_skip:
  assumes "\<forall>j. a \<le> j \<and> j < k \<longrightarrow> (\<exists>e. func j = Inl e \<and> retryable lib e)"
    and "a \<le> k" and "k < m"
  shows "retry_from lib func m d a sl = retry_from lib func m d k (sl @ map (\<lambda>j. d * 2 ^ j) [a..<k])"
  using assms
proof (induction "k - a" arbitrary: a sl)
  case 0
  then show ?case by simp
next
  case (Suc n)
  then have ak: "a < k" by simp
  then obtain e where e: "func a = Inl e" "retryable lib e" using Suc.prems(1) by auto
  have step: "retry_from lib func m d a sl = retry_from lib func m d (Suc a) (sl @ [d * 2 ^ a])"
    using e ak Suc.prems(3)
    by (subst retry_from.simps) (simp add: retryable_def check_and_reraise_cancel_def)
  have "retry_from lib func m d (Suc a) (sl @ [d * 2 ^ a]) =
        retry_from lib func m d k ((sl @ [d * 2 ^ a]) @ map (\<lambda>j. d * 2 ^ j) [Suc a..<k])"
    using Suc.hyps(1)[of "Suc a"] Suc.hyps(2) Suc.prems ak by auto
  then show ?case using step ak by (simp add: upt_conv_Cons)
qed

lemma retry_prefix:
  assumes "\<forall>j < k. \<exists>e. func j = Inl e \<and> retryable lib e" and "k < m"
  shows "retry_on_network_error lib m d func = retry_from lib func m d k (map (\<lambda>j. d * 2 ^ j) [0..<k])"
  unfolding retry_on_network_error_def
  using retry_from_skip[of 0 k func lib m d "[]"] assms by simp

lemma retry_from_calls: "snd (snd (retry_from lib fn m dl a sl)) \<le> max a m"
proof (induction lib fn m dl a sl rule: retry_from.induct)
  case (1 lib fn m dl a sl)
  show ?case
    apply (subst retry_from.simps)
    using 1 by (auto split: sum.splits simp: check_and_reraise_cancel_def)
qed

lemma is_cancel_signal_iff:
  "is_cancel_signal lib e =
     (exc_type e = ''TaskCancelledException'' \<or> py_in ''cancelled'' (str_lower lib (exc_msg e)))"
  by (auto simp: is_cancel_signal_def)

lemma is_network_iff:
  "is_network lib e =
     (\<exists>kw \<in> {''timeout'', ''connection'', ''network'', ''timed out'', ''urlopen''}.
        py_in kw (str_lower lib (exc_msg e)))"
  by (simp add: is_network_def NETWORK_KEYWORDS_def)

text \<open>
  C7. The wrapper calls the download at most \<open>max_retries\<close> times (3 at every use in the
  downloaders, with \<open>retry_delay = 5\<close>). Suppose the first \<open>k\<close> attempts all failed with
  an error that is not a cancellation and whose lower-cased message contains one of the
  keywords \<open>timeout\<close>, \<open>connection\<close>, \<open>network\<close>, \<open>timed out\<close>, \<open>urlopen\<close>: the wrapper slept
  \<open>retry_delay * 2 ^ j\<close> after attempt \<open>j\<close> and tried again. Then at attempt \<open>k\<close>:
  a returned value is returned; an error of class \<open>TaskCancelledException\<close>, and an error
  whose lower-cased message contains \<open>cancelled\<close>, is raised again at once, with no sleep
  and no further call; any other error whose lower-cased message contains none of the
  keywords makes the wrapper return \<open>None\<close> at once, with no sleep and no further call;
  and an error with a keyword at the last attempt makes it return \<open>None\<close>.
\<close>

theorem retry_only_network_errors:
  assumes "k < max_retries"
    and "\<forall>j < k. \<exists>e. func j = Inl e \<and>
           exc_type e \<noteq> ''TaskCancelledException'' \<and>
           \<not> py_in ''cancelled'' (str_lower lib (exc_msg e)) \<and>
           (\<exists>kw \<in> {''timeout'', ''connection'', ''network'', ''timed out'', ''urlopen''}.
              py_in kw (str_lower lib (exc_msg e)))"
  shows "(\<forall>v. func k = Inr v \<longrightarrow>
            retry_on_network_error lib max_retries d func =
              (Inr (Some v), map (\<lambda>j. d * 2 ^ j) [0..<k], k + 1)) \<and>
         (\<forall>e. func k = Inl e \<and> exc_type e = ''TaskCancelledException'' \<longrightarrow>
            retry_on_network_error lib max_retries d func =
              (Inl e, map (\<lambda>j. d * 2 ^ j) [0..<k], k + 1)) \<and>
         (\<forall>e. func k = Inl e \<and> py_in ''cancelled'' (str_lower lib (exc_msg e)) \<longrightarrow>
            retry_on_network_error lib max_retries d func =
              (Inl e, map (\<lambda>j. d * 2 ^ j) [0..<k], k + 1)) \<and>
         (\<forall>e. func k = Inl e \<and> exc_type e \<noteq> ''TaskCancelledException'' \<and>
               \<not> py_in ''cancelled'' (str_lower lib (exc_msg e)) \<and>
               (\<forall>kw \<in> {''timeout'', ''connection'', ''network'', ''timed out'', ''urlopen''}.
                  \<not> py_in kw (str_lower lib (exc_msg e))) \<longrightarrow>
            retry_on_network_error lib max_retries d func =
              (Inr None, map (\<lambda>j. d * 2 ^ j) [0..<k], k + 1)) \<and>
         (\<forall>e. func k = Inl e \<and> exc_type e \<noteq> ''TaskCancelledException'' \<and>
               \<not> py_in ''cancelled'' (str_lower lib (exc_msg e)) \<and>
               (\<exists>kw \<in> {''timeout'', ''connection'', ''network'', ''timed out'', ''urlopen''}.
                  py_in kw (str_lower lib (exc_msg e))) \<and>
               k + 1 = max_retries \<longrightarrow>
            retry_on_network_error lib max_retries d func =
              (Inr None, map (\<lambda>j. d * 2 ^ j) [0..<k], max_retries)) \<and>
         snd (snd (retry_on_network_error lib max_retries d func)) \<le> max_retries"
proof -
  have ret: "retryable lib e"
    if "exc_type e \<noteq> ''TaskCancelledException''"
      and "\<not> py_in ''cancelled'' (str_lower lib (exc_msg e))"
      and "\<exists>kw \<in> {''timeout'', ''connection'', ''network'', ''timed out'', ''urlopen''}.
              py_in kw (str_lower lib (exc_msg e))" for e
    using that by (simp add: retryable_def is_cancel_signal_def is_network_iff)
  have pre: "\<forall>j < k. \<exists>e. func j = Inl e \<and> retryable lib e"
  proof (intro allI impI)
    fix j assume "j < k"
    with assms(2) obtain e where "func j = Inl e"
      "exc_type e \<noteq> ''TaskCancelledException''"
      "\<not> py_in ''cancelled'' (str_lower lib (exc_msg e))"
      "\<exists>kw \<in> {''timeout'', ''connection'', ''network'', ''timed out'', ''urlopen''}.
              py_in kw (str_lower lib (exc_msg e))"
      by meson
    then show "\<exists>e. func j = Inl e \<and> retryable lib e" using ret by meson
  qed
  have eq: "retry_on_network_error lib max_retries d func =
      retry_from lib func max_retries d k (map (\<lambda>j. d * 2 ^ j) [0..<k])"
    using retry_prefix[OF pre assms(1)] .
  have c6: "snd (snd (retry_on_network_error lib max_retries d func)) \<le> max_retries"
    using retry_from_calls[of lib func max_retries d 0 "[]"] by (simp add: retry_on_network_error_def)
  have c1: "retry_from lib func max_retries d k sl = (Inr (Some v), sl, k + 1)"
    if "func k = Inr v" for v sl
    using that assms(1) by (subst retry_from.simps) simp
  have c2: "retry_from lib func max_retries d k sl = (Inl e, sl, k + 1)"
    if "func k = Inl e" "is_cancel_signal lib e" for e sl
    using that assms(1) by (subst retry_from.simps) (simp add: check_and_reraise_cancel_def)
  have c4: "retry_from lib func max_retries d k sl = (Inr None, sl, k + 1)"
    if "func k = Inl e" "\<not> is_cancel_signal lib e" "\<not> is_network lib e" for e sl
    using that assms(1) by (subst retry_from.simps) (simp add: check_and_reraise_cancel_def)
  have c5: "retry_from lib func max_retries d k sl = (Inr None, sl, max_retries)"
    if "func k = Inl e" "\<not> is_cancel_signal lib e" "k + 1 = max_retries" for e sl
    using that assms(1) by (subst retry_from.simps) (auto simp: check_and_reraise_cancel_def)
  show ?thesis
    unfolding eq
  proof (intro conjI allI impI)
    fix v assume "func k = Inr v"
    then show "retry_from lib func max_retries d k (map (\<lambda>j. d * 2 ^ j) [0..<k]) =
        (Inr (Some v), map (\<lambda>j. d * 2 ^ j) [0..<k], k + 1)" by (rule c1)
  next
    fix e assume h: "func k = Inl e \<and> exc_type e = ''TaskCancelledException''"
    then have "is_cancel_signal lib e" by (simp add: is_cancel_signal_def)
    with h show "retry_from lib func max_retries d k (map (\<lambda>j. d * 2 ^ j) [0..<k]) =
        (Inl e, map (\<lambda>j. d * 2 ^ j) [0..<k], k + 1)" using c2 by simp
  next
    fix e assume h: "func k = Inl e \<and> py_in ''cancelled'' (str_lower lib (exc_msg e))"
    then have "is_cancel_signal lib e" by (simp add: is_cancel_signal_def)
    with h show "retry_from lib func max_retries d k (map (\<lambda>j. d * 2 ^ j) [0..<k]) =
        (Inl e, map (\<lambda>j. d * 2 ^ j) [0..<k], k + 1)" using c2 by simp
  next
    fix e assume h: "func k = Inl e \<and> exc_type e \<noteq> ''TaskCancelledException'' \<and>
               \<not> py_in ''cancelled'' (str_lower lib (exc_msg e)) \<and>
               (\<forall>kw \<in> {''timeout'', ''connection'', ''network'', ''timed out'', ''urlopen''}.
                  \<not> py_in kw (str_lower lib (exc_msg e)))"
    then have "\<not> is_cancel_signal lib e" "\<not> is_network lib e"
      by (simp_all add: is_cancel_signal_def is_network_iff)
    with h show "retry_from lib func max_retries d k (map (\<lambda>j. d * 2 ^ j) [0..<k]) =
        (Inr None, map (\<lambda>j. d * 2 ^ j) [0..<k], k + 1)" using c4 by simp
  next
    fix e assume h: "func k = Inl e \<and> exc_type e \<noteq> ''TaskCancelledException'' \<and>
               \<not> py_in ''cancelled'' (str_lower lib (exc_msg e)) \<and>
               (\<exists>kw \<in> {''timeout'', ''connection'', ''network'', ''timed out'', ''urlopen''}.
                  py_in kw (str_lower lib (exc_msg e))) \<and>
               k + 1 = max_retries"
    then have "\<not> is_cancel_signal lib e" by (simp add: is_cancel_signal_def)
    with h show "retry_from lib func max_retries d k (map (\<lambda>j. d * 2 ^ j) [0..<k]) =
        (Inr None, map (\<lambda>j. d * 2 ^ j) [0..<k], max_retries)" using c5 by simp
  next
    show "snd (snd (retry_from lib func max_retries d k (map (\<lambda>j. d * 2 ^ j) [0..<k]))) \<le> max_retries"
      using c6[unfolded eq] .
  qed
qed

text \<open>Four downloads: two that fail and one that succeeds at the third attempt.\<close>

definition flaky_download :: "nat \<Rightarrow> py_exception + string" where
  "flaky_download k =
     (if k = 0 then Inl (PyExc ''DownloadError'' ''Connection reset by peer'')
      else if k = 1 then Inl (PyExc ''DownloadError'' ''The read operation timed out'')
      else Inr ''data/temp_downloads/a.mp3'')"

definition cancelled_download :: "nat \<Rightarrow> py_exception + string" where
  "cancelled_download k =
     (if k = 0 then Inl (PyExc ''DownloadError'' ''Network is unreachable'')
      else Inl (PyExc ''TaskCancelledException'' ''Task 7 cancelled by user''))"

definition aborted_download :: "nat \<Rightarrow> py_exception + string" where
  "aborted_download k = Inl (PyExc ''DownloadError'' ''Download CANCELLED: connection closed'')"

definition missing_download :: "nat \<Rightarrow> py_exception + string" where
  "missing_download k = Inl (PyExc ''DownloadError'' ''HTTP Error 404: Not Found'')"

lemma lower_messages:
  "ascii_lower ''Connection reset by peer'' = ''connection reset by peer''"
  "ascii_lower ''The read operation timed out'' = ''the read operation timed out''"
  "ascii_lower ''Network is unreachable'' = ''network is unreachable''"
  "ascii_lower ''Download CANCELLED: connection closed'' = ''download cancelled: connection closed''"
  "ascii_lower ''HTTP Error 404: Not Found'' = ''http error 404: not found''"
  by (simp_all add: ascii_lower_def lower_char_def)

theorem retry_only_network_errors_witness:
  "retry_on_network_error demo_lib 3 5 flaky_download =
     (Inr (Some ''data/temp_downloads/a.mp3''), [5, 10], 3) \<and>
   retry_on_network_error demo_lib 3 5 cancelled_download =
     (Inl (PyExc ''TaskCancelledException'' ''Task 7 cancelled by user''), [5], 2) \<and>
   retry_on_network_error demo_lib 3 5 aborted_download =
     (Inl (PyExc ''DownloadError'' ''Download CANCELLED: connection closed''), [], 1) \<and>
   retry_on_network_error demo_lib 3 5 missing_download = (Inr None, [], 1)"
proof -
  have k2: "(2::nat) < 3" and k1: "(1::nat) < 3" and k0: "(0::nat) < 3" by simp_all
  have pre2: "\<forall>j < 2. \<exists>e. flaky_download j = Inl e \<and>
           exc_type e \<noteq> ''TaskCancelledException'' \<and>
           \<not> py_in ''cancelled'' (str_lower demo_lib (exc_msg e)) \<and>
           (\<exists>kw \<in> {''timeout'', ''connection'', ''network'', ''timed out'', ''urlopen''}.
              py_in kw (str_lower demo_lib (exc_msg e)))"
  proof (intro allI impI)
    fix j :: nat assume "j < 2"
    then have "j = 0 \<or> j = 1" by auto
    then show "\<exists>e. flaky_download j = Inl e \<and>
           exc_type e \<noteq> ''TaskCancelledException'' \<and>
           \<not> py_in ''cancelled'' (str_lower demo_lib (exc_msg e)) \<and>
           (\<exists>kw \<in> {''timeout'', ''connection'', ''network'', ''timed out'', ''urlopen''}.
              py_in kw (str_lower demo_lib (exc_msg e)))"
      by (auto simp: flaky_download_def lower_messages)
  qed
  have pre1: "\<forall>j < 1. \<exists>e. cancelled_download j = Inl e \<and>
           exc_type e \<noteq> ''TaskCancelledException'' \<and>
           \<not> py_in ''cancelled'' (str_lower demo_lib (exc_msg e)) \<and>
           (\<exists>kw \<in> {''timeout'', ''connection'', ''network'', ''timed out'', ''urlopen''}.
              py_in kw (str_lower demo_lib (exc_msg e)))"
    by (simp add: cancelled_download_def lower_messages)
  have pre0: "\<forall>j < 0. \<exists>e. f j = Inl e \<and>
           exc_type e \<noteq> ''TaskCancelledException'' \<and>
           \<not> py_in ''cancelled'' (str_lower demo_lib (exc_msg e)) \<and>
           (\<exists>kw \<in> {''timeout'', ''connection'', ''network'', ''timed out'', ''urlopen''}.
              py_in kw (str_lower demo_lib (exc_msg e)))" for f :: "nat \<Rightarrow> py_exception + string"
    by simp
  have v2: "flaky_download 2 = Inr ''data/temp_downloads/a.mp3''"
    by (simp add: flaky_download_def)
  have v1: "cancelled_download 1 = Inl (PyExc ''TaskCancelledException'' ''Task 7 cancelled by user'')"
    by (simp add: cancelled_download_def)
  have v0: "aborted_download 0 = Inl (PyExc ''DownloadError'' ''Download CANCELLED: connection closed'')"
    "py_in ''cancelled'' (str_lower demo_lib ''Download CANCELLED: connection closed'')"
    by (simp_all add: aborted_download_def lower_messages)
  have w0: "missing_download 0 = Inl (PyExc ''DownloadError'' ''HTTP Error 404: Not Found'')"
    "\<not> py_in ''cancelled'' (str_lower demo_lib ''HTTP Error 404: Not Found'')"
    "\<forall>kw \<in> {''timeout'', ''connection'', ''network'', ''timed out'', ''urlopen''}.
        \<not> py_in kw (str_lower demo_lib ''HTTP Error 404: Not Found'')"
    by (simp_all add: missing_download_def lower_messages)
  have a: "retry_on_network_error demo_lib 3 5 flaky_download =
     (Inr (Some ''data/temp_downloads/a.mp3''), [5, 10], 3)"
    using retry_only_network_errors[OF k2 pre2, of 5] v2
    by (simp add: upt_rec)
  have b: "retry_on_network_error demo_lib 3 5 cancelled_download =
     (Inl (PyExc ''TaskCancelledException'' ''Task 7 cancelled by user''), [5], 2)"
    using retry_only_network_errors[OF k1 pre1, of 5] v1
    by (simp add: upt_rec)
  have c: "retry_on_network_error demo_lib 3 5 aborted_download =
     (Inl (PyExc ''DownloadError'' ''Download CANCELLED: connection closed''), [], 1)"
    using retry_only_network_errors[OF k0 pre0, of aborted_download 5] v0
    by simp
  have d: "retry_on_network_error demo_lib 3 5 missing_download = (Inr None, [], 1)"
    using retry_only_network_errors[OF k0 pre0, of missing_download 5] w0
    by simp
  show ?thesis using a b c d by simp
qed

section \<open>Media cache service: the state it works on\<close>

text \<open>
  The service works on the file system and on four database tables. A path string names
  a file as the program spells it, relative to the working directory, so
  \<open>os.path.join(os.getcwd(), rel_path)\<close> names the file \<open>rel_path\<close>. The file system
  holds regular files with their sizes, and the directories that exist, by their
  spelling; a file can be moved only into a directory that exists, and removing an
  existing file succeeds.

  The column \<open>cache_expires_at\<close> holds whatever value the cache-policy endpoint was
  sent. The code compares such a value in a query and formats it into a message, no
  more, so a value is kept by its storage class: \<open>NULL\<close>, a number (an \<open>INTEGER\<close> or a
  \<open>REAL\<close>, kept as the text \<open>str()\<close> gives for it), or a text. The column \<open>cached_at\<close>
  holds the text that \<open>upsert_cache_entry\<close> writes.
\<close>

datatype sql_value = SqlNull | SqlNumber string | SqlText string

record cache_entry =
  source_id :: string
  quality :: string
  media_path :: string
  file_size :: nat
  cached_at :: string

record video_meta_row =
  cache_policy :: "string option"
  cache_expires_at :: sql_value
  video_title :: "string option"

record transcription_row =
  tr_source :: string
  tr_status :: string
  tr_raw_text :: string
  tr_asr_model :: string
  tr_is_subtitle :: bool

record world =
  files :: "(string \<times> nat) list"
  dirs :: "string list"
  media_cache_entries :: "cache_entry list"
  video_meta :: "string \<rightharpoonup> video_meta_row"
  system_configs :: "string \<rightharpoonup> string"
  transcriptions :: "int \<rightharpoonup> transcription_row"
  task_registry :: task_manager

definition MEDIA_CACHE_DIR :: string where
  "MEDIA_CACHE_DIR = ''data/media_cache''"

subsection \<open>File system calls\<close>

definition path_exists :: "world \<Rightarrow> string \<Rightarrow> bool" where
  "path_exists w p = (map_of (files w) p \<noteq> None)"

definition getsize :: "world \<Rightarrow> string \<Rightarrow> nat" where
  "getsize w p = (case map_of (files w) p of Some n \<Rightarrow> n | None \<Rightarrow> 0)"

definition os_remove :: "world \<Rightarrow> string \<Rightarrow> world" where
  "os_remove w p = w\<lparr>files := AList.delete p (files w)\<rparr>"

text \<open>\<open>os.makedirs(p, exist_ok=True)\<close>: the directory and the directories above it.\<close>

fun join_slash :: "string list \<Rightarrow> string" where
  "join_slash [] = []"
| "join_slash [c] = c"
| "join_slash (c # d # cs) = c @ ''/'' @ join_slash (d # cs)"

definition ancestors :: "string \<Rightarrow> string list" where
  "ancestors p =
     map (\<lambda>k. join_slash (take k (split_on CHR ''/'' p)))
       [1..<length (split_on CHR ''/'' p) + 1]"

definition os_makedirs :: "world \<Rightarrow> string \<Rightarrow> world" where
  "os_makedirs w p = w\<lparr>dirs := dirs w @ filter (\<lambda>d. d \<notin> set (dirs w)) (ancestors p)\<rparr>"

text \<open>
  \<open>shutil.move(src, dst)\<close> of a file onto a file path: a rename that replaces \<open>dst\<close>. It
  raises \<open>FileNotFoundError\<close> when \<open>src\<close> does not exist or when the directory of \<open>dst\<close>
  does not exist (the working directory always does).
\<close>

definition FileNotFoundError :: "string \<Rightarrow> py_exception" where
  "FileNotFoundError p =
     PyExc ''FileNotFoundError'' (''[Errno 2] No such file or directory: '' @ quoted p)"

definition shutil_move :: "world \<Rightarrow> string \<Rightarrow> string \<Rightarrow> py_exception + world" where
  "shutil_move w src dst =
     (case map_of (files w) src of
        None \<Rightarrow> Inl (FileNotFoundError src)
      | Some n \<Rightarrow>
          if dirname dst = [] \<or> dirname dst \<in> set (dirs w)
          then Inr (w\<lparr>files := AList.update dst n (AList.delete src (files w))\<rparr>)
          else Inl (FileNotFoundError dst))"

subsection \<open>Database accessors (app/db/system_config.py, app/db/media_cache_entries.py)\<close>

definition get_system_config :: "world \<Rightarrow> string \<Rightarrow> string \<Rightarrow> string" where
  "get_system_config w key dflt = (case system_configs w key of Some v \<Rightarrow> v | None \<Rightarrow> dflt)"

definition has_key :: "string \<Rightarrow> string \<Rightarrow> cache_entry \<Rightarrow> bool" where
  "has_key sid q e = (source_id e = sid \<and> quality e = q)"

definition get_cache_entry :: "world \<Rightarrow> string \<Rightarrow> string \<Rightarrow> cache_entry option" where
  "get_cache_entry w sid q = find (has_key sid q) (media_cache_entries w)"

text \<open>
  \<open>INSERT ... ON CONFLICT(source_id, quality) DO UPDATE\<close>, with \<open>cached_at\<close> set to
  \<open>datetime.now().strftime("%Y-%m-%d %H:%M:%S")\<close>.
\<close>

definition upsert_cache_entry ::
  "world \<Rightarrow> string \<Rightarrow> string \<Rightarrow> string \<Rightarrow> nat \<Rightarrow> datetime \<Rightarrow> world" where
  "upsert_cache_entry w sid q path sz now =
     (if list_ex (has_key sid q) (media_cache_entries w)
      then w\<lparr>media_cache_entries :=
               map (\<lambda>e. if has_key sid q e
                         then e\<lparr>media_path := path, file_size := sz,
                                cached_at := strftime_seconds now\<rparr> else e)
                   (media_cache_entries w)\<rparr>
      else w\<lparr>media_cache_entries := media_cache_entries w @
               [\<lparr>source_id = sid, quality = q, media_path = path, file_size = sz,
                 cached_at = strftime_seconds now\<rparr>]\<rparr>)"

definition delete_cache_entry :: "world \<Rightarrow> string \<Rightarrow> string \<Rightarrow> world" where
  "delete_cache_entry w sid q =
     w\<lparr>media_cache_entries := filter (\<lambda>e. \<not> has_key sid q e) (media_cache_entries w)\<rparr>"

text \<open>The columns of \<open>video_meta\<close> that a \<open>LEFT JOIN ... ON e.source_id = vm.source_id\<close> adds to a cache row.\<close>

definition policy_of :: "world \<Rightarrow> string \<Rightarrow> string option" where
  "policy_of w sid = (case video_meta w sid of Some m \<Rightarrow> cache_policy m | None \<Rightarrow> None)"

definition expires_of :: "world \<Rightarrow> string \<Rightarrow> sql_value" where
  "expires_of w sid = (case video_meta w sid of Some m \<Rightarrow> cache_expires_at m | None \<Rightarrow> SqlNull)"

definition title_of :: "world \<Rightarrow> string \<Rightarrow> string option" where
  "title_of w sid = (case video_meta w sid of Some m \<Rightarrow> video_title m | None \<Rightarrow> None)"

section \<open>Media cache service (app/services/media_cache.py)\<close>

subsection \<open>Retention policy\<close>

text \<open>
  Under the guard \<open>startswith("keep_days:")\<close> the split has at least two fields, so
  \<open>split(":")[1]\<close> never raises; \<open>int\<close> of a string raises nothing but \<open>ValueError\<close>.
\<close>

definition get_retention_policy :: "py_lib \<Rightarrow> world \<Rightarrow> string \<times> int" where
  "get_retention_policy lib w =
     (let policy_str = get_system_config w ''media_retention_policy'' ''keep_days:3'' in
      if starts_with policy_str ''keep_days:'' then
        (case int_of_str lib (split_on CHR '':'' policy_str ! 1) of
           Some days \<Rightarrow> (''keep_days'', days)
         | None \<Rightarrow> (''delete_after_asr'', 0))
      else (policy_str, 0))"

definition should_keep :: "py_lib \<Rightarrow> world \<Rightarrow> bool" where
  "should_keep lib w = (fst (get_retention_policy lib w) \<noteq> ''delete_after_asr'')"

subsection \<open>Filling the cache\<close>

text \<open>
  \<open>_reset_expired_policy\<close>: a stored expiry that is a text is parsed with
  \<open>datetime.fromisoformat\<close> and compared with now; a stored number is no \<open>datetime\<close> and
  resets nothing.
\<close>

definition reset_expired_policy :: "py_lib \<Rightarrow> world \<Rightarrow> string \<Rightarrow> datetime \<Rightarrow> world" where
  "reset_expired_policy lib w sid now =
     (case video_meta w sid of
        None \<Rightarrow> w
      | Some m \<Rightarrow>
          if cache_policy m = Some ''custom'' \<and>
             (case cache_expires_at m of
                SqlText s \<Rightarrow> s \<noteq> [] \<and> iso_before lib s now
              | SqlNumber n \<Rightarrow> False
              | SqlNull \<Rightarrow> False)
          then w\<lparr>video_meta := (video_meta w)(sid \<mapsto> m\<lparr>cache_policy := None, cache_expires_at := SqlNull\<rparr>)\<rparr>
          else w)"

text \<open>
  \<open>cache_file\<close>. The result is the returned relative path and the world after the call;
  the path is \<open>None\<close> when the input file is missing and when the \<open>try\<close> block raised
  (the move into the cache failed), in which case nothing has been recorded.
\<close>

definition cache_filename :: "py_lib \<Rightarrow> string \<Rightarrow> int \<Rightarrow> string option \<Rightarrow> string \<Rightarrow> string" where
  "cache_filename lib temp_path transcription_id source q =
     (case (if truthy source then source else None) of
        Some src \<Rightarrow>
          (let source_hash = md5_hexdigest lib src; ext = splitext_ext temp_path in
           if q \<noteq> [] \<and> q \<noteq> ''best'' then source_hash @ ''_'' @ q @ ext
           else source_hash @ ext)
      | None \<Rightarrow> str_int transcription_id @ ''_'' @ basename temp_path)"

definition cache_file ::
  "py_lib \<Rightarrow> world \<Rightarrow> string option \<Rightarrow> int \<Rightarrow> string option \<Rightarrow> string \<Rightarrow> datetime
     \<Rightarrow> string option \<times> world" where
  "cache_file lib w temp_path transcription_id source q now =
     (case (if truthy temp_path then temp_path else None) of
        None \<Rightarrow> (None, w)
      | Some tp \<Rightarrow>
          if \<not> path_exists w tp then (None, w)
          else
            (let w0 = os_makedirs w MEDIA_CACHE_DIR;
                 new_filename = cache_filename lib tp transcription_id source q;
                 target_path = path_join MEDIA_CACHE_DIR new_filename;
                 relative_path =
                   replace_backslash (path_join (path_join ''data'' ''media_cache'') new_filename)
             in case (if path_exists w0 target_path \<and> truthy source then Inr (os_remove w0 tp)
                      else shutil_move w0 tp target_path) of
                  Inl e \<Rightarrow> (None, w0)
                | Inr w1 \<Rightarrow>
                    (let fsize = (if path_exists w1 target_path then getsize w1 target_path else 0);
                         sid = (if \<not> truthy source \<and> transcription_id \<noteq> 0
                                then (case transcriptions w1 transcription_id of
                                        Some row \<Rightarrow> Some (tr_source row)
                                      | None \<Rightarrow> source)
                                else source);
                         w2 = (case (if truthy sid then sid else None) of
                                 Some s \<Rightarrow>
                                   reset_expired_policy lib
                                     (upsert_cache_entry w1 s q relative_path fsize now) s now
                               | None \<Rightarrow> w1)
                     in (Some relative_path, w2))))"

definition cleanup_or_delete ::
  "py_lib \<Rightarrow> world \<Rightarrow> string option \<Rightarrow> int \<Rightarrow> string option \<Rightarrow> string \<Rightarrow> datetime \<Rightarrow> world" where
  "cleanup_or_delete lib w temp_path transcription_id source q now =
     (case (if truthy temp_path then temp_path else None) of
        None \<Rightarrow> w
      | Some tp \<Rightarrow>
          if \<not> path_exists w tp then w
          else if should_keep lib w
          then snd (cache_file lib w temp_path transcription_id source q now)
          else os_remove w tp)"

subsection \<open>Retention policy parsing and its effect on cleanup\<close>

lemma split_on_nonempty: "split_on sep s \<noteq> []"
  by (induction s) (auto split: list.splits)

lemma hd_split_on: "hd (split_on sep s) = takeWhile (\<lambda>c. c \<noteq> sep) s"
  by (induction s) (auto split: list.splits simp: split_on_nonempty)

lemma split_on_prefix:
  "sep \<notin> set a \<Longrightarrow> split_on sep (a @ sep # s) = a # split_on sep s"
  by (induction a) (auto split: list.splits)

lemma keep_days_field:
  "split_on CHR '':'' (''keep_days:'' @ n) ! 1 = takeWhile (\<lambda>c. c \<noteq> CHR '':'') n"
proof -
  have "split_on CHR '':'' (''keep_days'' @ CHR '':'' # n) = ''keep_days'' # split_on CHR '':'' n"
    by (rule split_on_prefix) simp
  then have "split_on CHR '':'' (''keep_days:'' @ n) ! 1 = hd (split_on CHR '':'' n)"
    using split_on_nonempty[of "CHR '':''" n] by (cases "split_on CHR '':'' n") auto
  then show ?thesis by (simp add: hd_split_on)
qed

lemma starts_with_append: "starts_with (p @ s) p"
  by (induction p) auto

lemma path_exists_os_remove [simp]:
  "path_exists (os_remove w p) x = (x \<noteq> p \<and> path_exists w x)"
  by (auto simp: path_exists_def os_remove_def delete_conv')

lemma os_remove_frame [simp]:
  "dirs (os_remove w p) = dirs w"
  "media_cache_entries (os_remove w p) = media_cache_entries w"
  "video_meta (os_remove w p) = video_meta w"
  "system_configs (os_remove w p) = system_configs w"
  "transcriptions (os_remove w p) = transcriptions w"
  "task_registry (os_remove w p) = task_registry w"
  by (simp_all add: os_remove_def)

definition unparsed_days_world :: world where
  "unparsed_days_world =
     \<lparr>files = [(''data/temp_downloads/a.mp3'', 10)], dirs = [''data'', ''data/temp_downloads''],
      media_cache_entries = [], video_meta = Map.empty,
      system_configs = [''media_retention_policy'' \<mapsto> ''keep_days:5:abc''],
      transcriptions = Map.empty, task_registry = new_manager\<rparr>"

text \<open>
  C10, as stated, fails when the text after \<open>keep_days:\<close> holds a further colon: for the
  stored string \<open>keep_days:5:abc\<close> the text \<open>5:abc\<close> is not parseable as an integer
  (\<open>int("5:abc")\<close> raises \<open>ValueError\<close>), yet only the field \<open>5\<close> is parsed, the policy is
  \<open>keep_days\<close> with 5 days, and files are kept.
\<close>

theorem keep_days_extra_colon_counterexample:
  "system_configs unparsed_days_world ''media_retention_policy'' = Some (''keep_days:'' @ ''5:abc'') \<and>
   int_of_str demo_lib ''5:abc'' = None \<and>
   get_retention_policy demo_lib unparsed_days_world = (''keep_days'', 5) \<and>
   should_keep demo_lib unparsed_days_world"
  by (simp add: demo_int_def get_retention_policy_def get_system_config_def
      unparsed_days_world_def should_keep_def)

text \<open>
  C10, amended: for every stored retention-policy string \<open>keep_days:N\<close> where \<open>int\<close>
  raises \<open>ValueError\<close> on the part of \<open>N\<close> before any further colon (all of \<open>N\<close> when it
  has none), \<open>get_retention_policy\<close> returns \<open>delete_after_asr\<close> with 0 days, so
  \<open>should_keep\<close> is false and \<open>cleanup_or_delete\<close> deletes an existing fresh media file
  and records no cache entry.
\<close>

theorem unparseable_keep_days_deletes:
  assumes "system_configs w ''media_retention_policy'' = Some (''keep_days:'' @ n)"
    and "int_of_str lib (takeWhile (\<lambda>c. c \<noteq> CHR '':'') n) = None"
  shows "get_retention_policy lib w = (''delete_after_asr'', 0) \<and>
         \<not> should_keep lib w \<and>
         (\<forall>tp. tp \<noteq> [] \<and> path_exists w tp \<longrightarrow>
            cleanup_or_delete lib w (Some tp) tid source q now = os_remove w tp \<and>
            \<not> path_exists (cleanup_or_delete lib w (Some tp) tid source q now) tp \<and>
            media_cache_entries (cleanup_or_delete lib w (Some tp) tid source q now) =
              media_cache_entries w)"
proof -
  have sw: "starts_with (''keep_days:'' @ n) ''keep_days:''"
    by (rule starts_with_append)
  have p: "get_retention_policy lib w = (''delete_after_asr'', 0)"
    unfolding get_retention_policy_def get_system_config_def Let_def
    using assms sw by (simp only: option.case if_True keep_days_field)
  then have k: "\<not> should_keep lib w" by (simp add: should_keep_def)
  have "cleanup_or_delete lib w (Some tp) tid source q now = os_remove w tp"
    if "tp \<noteq> []" "path_exists w tp" for tp
    using that k by (simp add: cleanup_or_delete_def)
  then show ?thesis using p k by auto
qed

definition float_days_world :: world where
  "float_days_world =
     \<lparr>files = [(''data/temp_downloads/a.mp3'', 10)], dirs = [''data'', ''data/temp_downloads''],
      media_cache_entries = [], video_meta = Map.empty,
      system_configs = [''media_retention_policy'' \<mapsto> ''keep_days:3.5''],
      transcriptions = Map.empty, task_registry = new_manager\<rparr>"

theorem unparseable_keep_days_witness:
  "get_retention_policy demo_lib float_days_world = (''delete_after_asr'', 0) \<and>
   files (cleanup_or_delete demo_lib float_days_world (Some ''data/temp_downloads/a.mp3'') 1
            (Some ''BV1GJ411x7h7'') ''audio_only'' demo_now) = [] \<and>
   media_cache_entries (cleanup_or_delete demo_lib float_days_world (Some ''data/temp_downloads/a.mp3'') 1
            (Some ''BV1GJ411x7h7'') ''audio_only'' demo_now) = []"
proof -
  have a: "system_configs float_days_world ''media_retention_policy'' = Some (''keep_days:'' @ ''3.5'')"
    by (simp add: float_days_world_def)
  have b: "int_of_str demo_lib (takeWhile (\<lambda>c. c \<noteq> CHR '':'') ''3.5'') = None"
    by (simp add: demo_int_def)
  have c: "path_exists float_days_world ''data/temp_downloads/a.mp3''"
    by (simp add: path_exists_def float_days_world_def)
  show ?thesis
    using unparseable_keep_days_deletes[OF a b, of 1 "Some ''BV1GJ411x7h7''" "''audio_only''" demo_now] c
    by (simp add: os_remove_def float_days_world_def)
qed

subsection \<open>Filling the cache twice\<close>

lemma os_makedirs_frame [simp]:
  "files (os_makedirs w p) = files w"
  "media_cache_entries (os_makedirs w p) = media_cache_entries w"
  "video_meta (os_makedirs w p) = video_meta w"
  "system_configs (os_makedirs w p) = system_configs w"
  "transcriptions (os_makedirs w p) = transcriptions w"
  "task_registry (os_makedirs w p) = task_registry w"
  by (simp_all add: os_makedirs_def)

lemma path_exists_files: "files w = files w' \<Longrightarrow> path_exists w = path_exists w'"
  by (rule ext) (simp add: path_exists_def)

lemma getsize_files: "files w = files w' \<Longrightarrow> getsize w = getsize w'"
  by (rule ext) (simp add: getsize_def)

lemma path_exists_makedirs [simp]: "path_exists (os_makedirs w p) = path_exists w"
  by (rule path_exists_files) simp

lemma getsize_makedirs [simp]: "getsize (os_makedirs w p) = getsize w"
  by (rule getsize_files) simp

lemma shutil_move_files:
  "shutil_move w src dst = Inr w' \<Longrightarrow>
   \<exists>n. map_of (files w) src = Some n \<and>
       w' = w\<lparr>files := AList.update dst n (AList.delete src (files w))\<rparr>"
  by (auto simp: shutil_move_def split: option.splits if_splits)

lemma path_exists_shutil_move:
  "shutil_move w src dst = Inr w' \<Longrightarrow>
   path_exists w' x = (x = dst \<or> (x \<noteq> src \<and> path_exists w x))"
  by (auto dest!: shutil_move_files simp: path_exists_def update_conv' delete_conv' split: if_splits)

lemma getsize_os_remove: "x \<noteq> p \<Longrightarrow> getsize (os_remove w p) x = getsize w x"
  by (simp add: getsize_def os_remove_def delete_conv')

lemma upsert_frame [simp]:
  "files (upsert_cache_entry w s q p n t) = files w"
  "dirs (upsert_cache_entry w s q p n t) = dirs w"
  "video_meta (upsert_cache_entry w s q p n t) = video_meta w"
  "system_configs (upsert_cache_entry w s q p n t) = system_configs w"
  "transcriptions (upsert_cache_entry w s q p n t) = transcriptions w"
  "task_registry (upsert_cache_entry w s q p n t) = task_registry w"
  by (simp_all add: upsert_cache_entry_def)

lemma reset_frame [simp]:
  "files (reset_expired_policy lib w s t) = files w"
  "dirs (reset_expired_policy lib w s t) = dirs w"
  "media_cache_entries (reset_expired_policy lib w s t) = media_cache_entries w"
  "system_configs (reset_expired_policy lib w s t) = system_configs w"
  "transcriptions (reset_expired_policy lib w s t) = transcriptions w"
  "task_registry (reset_expired_policy lib w s t) = task_registry w"
  by (simp_all add: reset_expired_policy_def split: option.splits)

text \<open>What one call of \<open>cache_file\<close> with a source id and an existing input file does.\<close>

lemma cache_file_with_source:
  assumes "s \<noteq> []" and "tp \<noteq> []" and "path_exists w tp"
  shows "cache_file lib w (Some tp) tid (Some s) q now =
     (let w0 = os_makedirs w MEDIA_CACHE_DIR;
          tgt = path_join MEDIA_CACHE_DIR (cache_filename lib tp tid (Some s) q);
          rel = replace_backslash
                  (path_join (path_join ''data'' ''media_cache'') (cache_filename lib tp tid (Some s) q))
      in case (if path_exists w tgt then Inr (os_remove w0 tp) else shutil_move w0 tp tgt) of
           Inl e \<Rightarrow> (None, w0)
         | Inr w1 \<Rightarrow>
             (Some rel,
              reset_expired_policy lib
                (upsert_cache_entry w1 s q rel (if path_exists w1 tgt then getsize w1 tgt else 0) now)
                s now))"
  using assms by (simp add: cache_file_def Let_def split: sum.splits)

lemma cache_filename_ext:
  "s \<noteq> [] \<Longrightarrow> splitext_ext t1 = splitext_ext t2 \<Longrightarrow>
   cache_filename lib t1 tid1 (Some s) q = cache_filename lib t2 tid2 (Some s) q"
  by (simp add: cache_filename_def Let_def)

lemma upsert_existing:
  "list_ex (has_key s q) (media_cache_entries w) \<Longrightarrow>
   media_cache_entries (upsert_cache_entry w s q p n t) =
     map (\<lambda>e. if has_key s q e
               then e\<lparr>media_path := p, file_size := n, cached_at := strftime_seconds t\<rparr> else e)
       (media_cache_entries w)"
  by (simp add: upsert_cache_entry_def)

lemma upsert_has_key:
  "list_ex (has_key s q) (media_cache_entries (upsert_cache_entry w s q p n t))"
proof (cases "list_ex (has_key s q) (media_cache_entries w)")
  case True
  let ?f = "\<lambda>e. if has_key s q e
               then e\<lparr>media_path := p, file_size := n, cached_at := strftime_seconds t\<rparr> else e"
  from True obtain x where x: "x \<in> set (media_cache_entries w)" "has_key s q x"
    by (auto simp: list_ex_iff)
  have "media_cache_entries (upsert_cache_entry w s q p n t) = map ?f (media_cache_entries w)"
    using True by (rule upsert_existing)
  then have "?f x \<in> set (media_cache_entries (upsert_cache_entry w s q p n t))"
    using x(1) by (simp only: set_map) (rule imageI)
  moreover have "has_key s q (?f x)" using x(2) by (simp add: has_key_def)
  ultimately show ?thesis unfolding list_ex_iff by blast
next
  case False
  then show ?thesis by (simp add: upsert_cache_entry_def has_key_def)
qed

lemma upsert_entry_fields:
  assumes "e \<in> set (media_cache_entries (upsert_cache_entry w s q p n t))" and "has_key s q e"
  shows "media_path e = p \<and> file_size e = n"
proof (cases "list_ex (has_key s q) (media_cache_entries w)")
  case True
  let ?f = "\<lambda>e. if has_key s q e
               then e\<lparr>media_path := p, file_size := n, cached_at := strftime_seconds t\<rparr> else e"
  have "media_cache_entries (upsert_cache_entry w s q p n t) = map ?f (media_cache_entries w)"
    using True by (rule upsert_existing)
  then have "e \<in> ?f ` set (media_cache_entries w)" using assms(1) by (simp only: set_map)
  then obtain x where "e = ?f x" by (rule imageE)
  then show ?thesis using assms(2) by (cases "has_key s q x") auto
next
  case False
  have "set (media_cache_entries (upsert_cache_entry w s q p n t)) =
     insert \<lparr>source_id = s, quality = q, media_path = p, file_size = n,
              cached_at = strftime_seconds t\<rparr>
       (set (media_cache_entries w))"
    using False by (simp add: upsert_cache_entry_def)
  then have "e \<in> set (media_cache_entries w) \<or>
     e = \<lparr>source_id = s, quality = q, media_path = p, file_size = n,
           cached_at = strftime_seconds t\<rparr>"
    using assms(1) by blast
  moreover have "e \<notin> set (media_cache_entries w)"
    using False assms(2) by (auto simp: list_ex_iff)
  ultimately show ?thesis by auto
qed

lemma path_exists_db [simp]:
  "path_exists (upsert_cache_entry w s q p n t) = path_exists w"
  "path_exists (reset_expired_policy lib w s t) = path_exists w"
  by (rule path_exists_files, simp)+

lemma getsize_db [simp]:
  "getsize (upsert_cache_entry w s q p n t) = getsize w"
  "getsize (reset_expired_policy lib w s t) = getsize w"
  by (rule getsize_files, simp)+

text \<open>
  A cache file name without a slash names a file directly in the cache directory, which
  \<open>os.makedirs\<close> has made, so the move into the cache does not fail and \<open>cache_file\<close>
  returns the path.
\<close>

lemma ancestors_cache_dir: "ancestors ''data/media_cache'' = [''data'', ''data/media_cache'']"
  by (simp add: ancestors_def upt_rec)

lemma cache_dir_made: "MEDIA_CACHE_DIR \<in> set (dirs (os_makedirs w MEDIA_CACHE_DIR))"
  by (auto simp: os_makedirs_def MEDIA_CACHE_DIR_def ancestors_cache_dir)

lemma dirname_in_cache_dir:
  assumes "CHR ''/'' \<notin> set f"
  shows "dirname (path_join MEDIA_CACHE_DIR f) = MEDIA_CACHE_DIR"
proof -
  have nf: "\<not> starts_with f ''/''" using assms by (cases f) auto
  have pj: "path_join MEDIA_CACHE_DIR f = ''data/media_cache/'' @ f"
    using nf by (simp add: path_join_def MEDIA_CACHE_DIR_def)
  have "dropWhile (\<lambda>c. c \<noteq> CHR ''/'') (rev f @ rev ''data/media_cache/'') = rev ''data/media_cache/''"
    using assms by (subst dropWhile_append2) auto
  then have "rev (dropWhile (\<lambda>c. c \<noteq> CHR ''/'') (rev (''data/media_cache/'' @ f))) = ''data/media_cache/''"
    by (simp only: rev_append rev_rev_ident)
  then show ?thesis
    unfolding pj dirname_def Let_def by (simp add: MEDIA_CACHE_DIR_def)
qed

lemma cache_file_returns_path:
  assumes "s \<noteq> []" and "tp \<noteq> []" and "path_exists w tp"
    and "CHR ''/'' \<notin> set (cache_filename lib tp tid (Some s) q)"
  shows "fst (cache_file lib w (Some tp) tid (Some s) q now) \<noteq> None"
proof -
  have "\<exists>w1. shutil_move (os_makedirs w MEDIA_CACHE_DIR) tp
                 (path_join MEDIA_CACHE_DIR (cache_filename lib tp tid (Some s) q)) = Inr w1"
    using assms(3) cache_dir_made[of w] dirname_in_cache_dir[OF assms(4)]
    by (auto simp: shutil_move_def path_exists_def)
  then show ?thesis
    using cache_file_with_source[OF assms(1,2,3), of lib tid q now]
    by (auto simp: Let_def)
qed

text \<open>
  C3, amended: for a non-empty source id and a quality, when a first call of \<open>cache_file\<close>
  has returned the cache path (it returns \<open>None\<close>, and records nothing, when the move into
  the cache fails, as it does for a quality tag that contains a slash), a second call with
  a different existing temp file that has the same file extension (neither temp file
  being the cache target itself) leaves one artifact: the second call returns the same
  relative path and only removes its temp input, the target file stays with its size, and
  the cache entry keeps its path and size (only \<open>cached_at\<close> is renewed).
\<close>

theorem cache_file_twice_same_extension:
  assumes "s \<noteq> []" and "t1 \<noteq> []" and "t2 \<noteq> []" and "t1 \<noteq> t2"
    and "path_exists w t1" and "path_exists w t2"
    and "splitext_ext t1 = splitext_ext t2"
    and "t1 \<noteq> path_join MEDIA_CACHE_DIR (cache_filename lib t1 tid1 (Some s) q)"
    and "t2 \<noteq> path_join MEDIA_CACHE_DIR (cache_filename lib t1 tid1 (Some s) q)"
    and "fst (cache_file lib w (Some t1) tid1 (Some s) q now1) \<noteq> None"
  shows "(let first = cache_file lib w (Some t1) tid1 (Some s) q now1;
              second = cache_file lib (snd first) (Some t2) tid2 (Some s) q now2;
              target = path_join MEDIA_CACHE_DIR (cache_filename lib t1 tid1 (Some s) q)
          in fst second = fst first \<and>
             files (snd second) = AList.delete t2 (files (snd first)) \<and>
             path_exists (snd second) target \<and>
             getsize (snd second) target = getsize (snd first) target \<and>
             list_ex (has_key s q) (media_cache_entries (snd first)) \<and>
             (\<forall>e \<in> set (media_cache_entries (snd first)).
                has_key s q e \<longrightarrow> Some (media_path e) = fst first \<and>
                                  file_size e = getsize (snd first) target) \<and>
             media_cache_entries (snd second) =
               map (\<lambda>e. if has_key s q e then e\<lparr>cached_at := strftime_seconds now2\<rparr> else e)
                 (media_cache_entries (snd first)))"
proof -
  define fn where "fn = cache_filename lib t1 tid1 (Some s) q"
  define tgt where "tgt = path_join MEDIA_CACHE_DIR fn"
  define rel where "rel = replace_backslash (path_join (path_join ''data'' ''media_cache'') fn)"
  define w0 where "w0 = os_makedirs w MEDIA_CACHE_DIR"
  note first_eq = cache_file_with_source[OF assms(1,2,5), of lib tid1 q now1,
      unfolded Let_def, folded fn_def, folded tgt_def rel_def w0_def]
  obtain w1a where w1a: "(if path_exists w tgt then Inr (os_remove w0 t1) else shutil_move w0 t1 tgt) = Inr w1a"
    using assms(10) first_eq
    by (cases "if path_exists w tgt then Inr (os_remove w0 t1) else shutil_move w0 t1 tgt") auto
  define sz where "sz = getsize w1a tgt"
  define W1 where "W1 = reset_expired_policy lib (upsert_cache_entry w1a s q rel sz now1) s now1"
  have fn2: "cache_filename lib t2 tid2 (Some s) q = fn"
    unfolding fn_def using cache_filename_ext[OF assms(1) assms(7), of lib tid1 q tid2] by simp
  have neq: "t1 \<noteq> tgt" "t2 \<noteq> tgt" using assms(8,9) by (simp_all add: tgt_def fn_def)
  have ex0: "path_exists w0 = path_exists w" by (simp add: w0_def)
  have ex_w1a: "path_exists w1a x = (if path_exists w tgt then x \<noteq> t1 \<and> path_exists w x
                                     else x = tgt \<or> (x \<noteq> t1 \<and> path_exists w x))" for x
  proof (cases "path_exists w tgt")
    case True
    then have "w1a = os_remove w0 t1" using w1a by simp
    then show ?thesis using True by (simp add: ex0)
  next
    case False
    then have "shutil_move w0 t1 tgt = Inr w1a" using w1a by simp
    from path_exists_shutil_move[OF this, of x] show ?thesis using False by (simp add: ex0)
  qed
  have ex_tgt: "path_exists w1a tgt" using neq by (simp add: ex_w1a)
  have ex_t2: "path_exists w1a t2" using assms(4,6) neq by (simp add: ex_w1a)
  have first: "cache_file lib w (Some t1) tid1 (Some s) q now1 = (Some rel, W1)"
    using first_eq w1a ex_tgt by (simp add: sz_def W1_def)
  have W1_files: "files W1 = files w1a" by (simp add: W1_def)
  have W1_ex: "path_exists W1 = path_exists w1a" by (simp add: W1_def)
  have W1_sz: "getsize W1 = getsize w1a" by (simp add: W1_def)
  define w2a where "w2a = os_remove (os_makedirs W1 MEDIA_CACHE_DIR) t2"
  define W2 where "W2 = reset_expired_policy lib (upsert_cache_entry w2a s q rel sz now2) s now2"
  have sz2: "getsize w2a tgt = sz"
    using neq by (simp add: w2a_def getsize_os_remove W1_sz sz_def)
  have ex2: "path_exists w2a tgt" using ex_tgt neq by (simp add: w2a_def W1_ex)
  have second: "cache_file lib W1 (Some t2) tid2 (Some s) q now2 = (Some rel, W2)"
    using cache_file_with_source[of s t2 W1 lib tid2 q now2] assms(1,3) ex_t2 ex_tgt ex2 sz2
      neq(2) neq(2)[symmetric]
    by (simp add: Let_def fn2 tgt_def[symmetric] rel_def[symmetric] W1_ex
        w2a_def[symmetric] W2_def)
  have files2: "files W2 = AList.delete t2 (files W1)"
    by (simp add: W2_def w2a_def os_remove_def)
  have key1: "list_ex (has_key s q) (media_cache_entries W1)"
    unfolding W1_def by (simp add: upsert_has_key)
  have fields1: "media_path e = rel \<and> file_size e = sz"
    if "e \<in> set (media_cache_entries W1)" "has_key s q e" for e
    using that upsert_entry_fields[of e w1a s q rel sz now1] by (simp add: W1_def)
  have "media_cache_entries W2 =
      map (\<lambda>e. if has_key s q e
               then e\<lparr>media_path := rel, file_size := sz, cached_at := strftime_seconds now2\<rparr> else e)
        (media_cache_entries W1)"
    using upsert_existing[of s q w2a rel sz now2] key1 by (simp add: W2_def w2a_def)
  also have "\<dots> = map (\<lambda>e. if has_key s q e then e\<lparr>cached_at := strftime_seconds now2\<rparr> else e)
                      (media_cache_entries W1)"
  proof (rule map_cong[OF refl])
    fix e assume "e \<in> set (media_cache_entries W1)"
    then show "(if has_key s q e
                then e\<lparr>media_path := rel, file_size := sz, cached_at := strftime_seconds now2\<rparr> else e) =
       (if has_key s q e then e\<lparr>cached_at := strftime_seconds now2\<rparr> else e)"
      using fields1[of e] by (cases "has_key s q e") auto
  qed
  finally have entries2: "media_cache_entries W2 =
      map (\<lambda>e. if has_key s q e then e\<lparr>cached_at := strftime_seconds now2\<rparr> else e)
        (media_cache_entries W1)" .
  have ex_final: "path_exists W2 tgt" using ex2 by (simp add: W2_def)
  have sz_final: "getsize W2 tgt = getsize W1 tgt" using sz2 by (simp add: W2_def W1_sz sz_def)
  show ?thesis
    unfolding Let_def fn_def[symmetric] tgt_def[symmetric] first second fst_conv snd_conv
    using files2 key1 fields1 entries2 ex_final sz_final by (simp add: W1_sz sz_def)
qed

definition two_downloads_world :: world where
  "two_downloads_world =
     \<lparr>files = [(''data/temp_downloads/a.mp3'', 10), (''data/temp_downloads/b.m4a'', 20),
               (''data/temp_downloads/c.mp3'', 30)],
      dirs = [''data'', ''data/temp_downloads''],
      media_cache_entries = [],
      video_meta = Map.empty,
      system_configs = [''media_retention_policy'' \<mapsto> ''always_keep''],
      transcriptions = Map.empty, task_registry = new_manager\<rparr>"

definition first_fill :: "string option \<times> world" where
  "first_fill = cache_file demo_lib two_downloads_world (Some ''data/temp_downloads/a.mp3'') 1
       (Some ''BV1GJ411x7h7'') ''audio_only'' demo_now"

lemma strftime_demo_now: "strftime_seconds demo_now = ''2026-11-04 12:00:00''"
  by (simp add: strftime_seconds_def zfill_def demo_now_def str_nat.simps)

lemmas cache_eval_defs = cache_file_def Let_def path_exists_def os_makedirs_def ancestors_cache_dir
     cache_filename_def demo_md5_def splitext_ext_def basename_def dirname_def path_join_def
     MEDIA_CACHE_DIR_def shutil_move_def os_remove_def getsize_def upsert_cache_entry_def
     reset_expired_policy_def replace_backslash_def has_key_def strftime_demo_now

lemma first_fill_value:
  "first_fill =
     (Some ''data/media_cache/605240293d3528b11c37597029167ab2_audio_only.mp3'',
      two_downloads_world
        \<lparr>files := [(''data/temp_downloads/b.m4a'', 20), (''data/temp_downloads/c.mp3'', 30),
                   (''data/media_cache/605240293d3528b11c37597029167ab2_audio_only.mp3'', 10)],
         dirs := [''data'', ''data/temp_downloads'', ''data/media_cache''],
         media_cache_entries :=
           [\<lparr>source_id = ''BV1GJ411x7h7'', quality = ''audio_only'',
              media_path = ''data/media_cache/605240293d3528b11c37597029167ab2_audio_only.mp3'',
              file_size = 10, cached_at = ''2026-11-04 12:00:00''\<rparr>]\<rparr>)"
  unfolding first_fill_def
  by (simp add: cache_eval_defs two_downloads_world_def)

definition demo_later :: datetime where
  "demo_later = demo_now\<lparr>dt_hour := 13, dt_minute := 30\<rparr>"

lemma strftime_demo_later: "strftime_seconds demo_later = ''2026-11-04 13:30:00''"
  by (simp add: strftime_seconds_def zfill_def demo_now_def demo_later_def str_nat.simps)

text \<open>
  C3, as stated, fails for temp files with different extensions: the target file name ends
  in the temp file's extension, so caching \<open>a.mp3\<close> and then \<open>b.m4a\<close> for the same source
  and quality leaves two artifacts in the cache directory, and the second call rewrites
  the entry's path and size.
\<close>

theorem cache_file_other_extension_counterexample:
  "media_cache_entries (snd first_fill) =
     [\<lparr>source_id = ''BV1GJ411x7h7'', quality = ''audio_only'',
       media_path = ''data/media_cache/605240293d3528b11c37597029167ab2_audio_only.mp3'',
       file_size = 10, cached_at = ''2026-11-04 12:00:00''\<rparr>] \<and>
   files (snd (cache_file demo_lib (snd first_fill) (Some ''data/temp_downloads/b.m4a'') 2
                 (Some ''BV1GJ411x7h7'') ''audio_only'' demo_later)) =
     [(''data/temp_downloads/c.mp3'', 30),
      (''data/media_cache/605240293d3528b11c37597029167ab2_audio_only.mp3'', 10),
      (''data/media_cache/605240293d3528b11c37597029167ab2_audio_only.m4a'', 20)] \<and>
   media_cache_entries (snd (cache_file demo_lib (snd first_fill) (Some ''data/temp_downloads/b.m4a'') 2
                 (Some ''BV1GJ411x7h7'') ''audio_only'' demo_later)) =
     [\<lparr>source_id = ''BV1GJ411x7h7'', quality = ''audio_only'',
       media_path = ''data/media_cache/605240293d3528b11c37597029167ab2_audio_only.m4a'',
       file_size = 20, cached_at = ''2026-11-04 13:30:00''\<rparr>]"
  unfolding first_fill_value
  by (simp add: cache_eval_defs two_downloads_world_def strftime_demo_later)

text \<open>
  A quality tag with a slash names a target below a directory that does not exist: the
  move raises, \<open>cache_file\<close> returns \<open>None\<close>, the temp file stays and no entry is recorded.
\<close>

lemma cache_file_missing_directory:
  "fst (cache_file demo_lib two_downloads_world (Some ''data/temp_downloads/a.mp3'') 1
          (Some ''BV1GJ411x7h7'') ''720p/60'' demo_now) = None \<and>
   files (snd (cache_file demo_lib two_downloads_world (Some ''data/temp_downloads/a.mp3'') 1
          (Some ''BV1GJ411x7h7'') ''720p/60'' demo_now)) = files two_downloads_world \<and>
   media_cache_entries (snd (cache_file demo_lib two_downloads_world (Some ''data/temp_downloads/a.mp3'') 1
          (Some ''BV1GJ411x7h7'') ''720p/60'' demo_now)) = []"
  by (simp add: cache_eval_defs two_downloads_world_def)

theorem cache_file_twice_witness:
  "fst first_fill = Some ''data/media_cache/605240293d3528b11c37597029167ab2_audio_only.mp3'' \<and>
   fst (cache_file demo_lib (snd first_fill) (Some ''data/temp_downloads/c.mp3'') 2
          (Some ''BV1GJ411x7h7'') ''audio_only'' demo_later) =
     Some ''data/media_cache/605240293d3528b11c37597029167ab2_audio_only.mp3'' \<and>
   files (snd (cache_file demo_lib (snd first_fill) (Some ''data/temp_downloads/c.mp3'') 2
                 (Some ''BV1GJ411x7h7'') ''audio_only'' demo_later)) =
     [(''data/temp_downloads/b.m4a'', 20),
      (''data/media_cache/605240293d3528b11c37597029167ab2_audio_only.mp3'', 10)] \<and>
   media_cache_entries (snd (cache_file demo_lib (snd first_fill) (Some ''data/temp_downloads/c.mp3'') 2
                 (Some ''BV1GJ411x7h7'') ''audio_only'' demo_later)) =
     [\<lparr>source_id = ''BV1GJ411x7h7'', quality = ''audio_only'',
       media_path = ''data/media_cache/605240293d3528b11c37597029167ab2_audio_only.mp3'',
       file_size = 10, cached_at = ''2026-11-04 13:30:00''\<rparr>]"
proof -
  let ?s = "''BV1GJ411x7h7''" and ?t1 = "''data/temp_downloads/a.mp3''"
    and ?t2 = "''data/temp_downloads/c.mp3''"
  have h: "?s \<noteq> []" "?t1 \<noteq> []" "?t2 \<noteq> []" "?t1 \<noteq> ?t2"
    "path_exists two_downloads_world ?t1" "path_exists two_downloads_world ?t2"
    "splitext_ext ?t1 = splitext_ext ?t2"
    "?t1 \<noteq> path_join MEDIA_CACHE_DIR (cache_filename demo_lib ?t1 1 (Some ?s) ''audio_only'')"
    "?t2 \<noteq> path_join MEDIA_CACHE_DIR (cache_filename demo_lib ?t1 1 (Some ?s) ''audio_only'')"
    by (simp_all add: path_exists_def two_downloads_world_def splitext_ext_def basename_def
        path_join_def MEDIA_CACHE_DIR_def cache_filename_def demo_md5_def)
  have r: "fst (cache_file demo_lib two_downloads_world (Some ?t1) 1 (Some ?s) ''audio_only'' demo_now)
             \<noteq> None"
    unfolding first_fill_def[symmetric] by (simp add: first_fill_value)
  show ?thesis
    using cache_file_twice_same_extension[OF h r, of 2 demo_later]
    unfolding first_fill_def[symmetric] Let_def
    by (simp add: first_fill_value has_key_def strftime_demo_later)
qed

section \<open>Garbage collection (app/services/media_cache.py)\<close>

subsection \<open>Candidates\<close>

record gc_candidate =
  cand_source_id :: string
  cand_quality :: string
  cand_media_path :: string
  cand_filesize :: nat
  cand_title :: string
  cand_reason :: string
  cand_policy :: string

text \<open>
  The candidate query binds \<open>datetime\<close> values, which reach SQLite as their
  \<open>isoformat(" ")\<close> text, and compares stored values with them. For a column without a
  text type, \<open>column < ?\<close> with such a text is decided by the storage class of the stored
  value: \<open>NULL\<close> selects nothing, a number sorts before every text, and two texts are
  compared byte by byte.
\<close>

definition sql_less_text :: "sql_value \<Rightarrow> string \<Rightarrow> bool" where
  "sql_less_text v t =
     (case v of SqlNull \<Rightarrow> False | SqlNumber n \<Rightarrow> True | SqlText s \<Rightarrow> s < t)"

text \<open>Clause A: \<open>vm.cache_policy = 'custom' AND vm.cache_expires_at < ?\<close>, with \<open>now\<close> bound.\<close>

definition custom_expired :: "world \<Rightarrow> datetime \<Rightarrow> cache_entry \<Rightarrow> bool" where
  "custom_expired w now e =
     (policy_of w (source_id e) = Some ''custom'' \<and>
      sql_less_text (expires_of w (source_id e)) (isoformat_space now))"

text \<open>
  The cutoff date of clause B, computed before the query runs: \<open>now - timedelta(days=days)\<close>
  under \<open>keep_days\<close> with a positive number of days, \<open>now - timedelta(hours=1)\<close> under
  \<open>delete_after_asr\<close>, and no clause B otherwise. Both steps can raise \<open>OverflowError\<close>.
\<close>

definition gc_cutoff :: "py_lib \<Rightarrow> world \<Rightarrow> datetime \<Rightarrow> py_exception + datetime option" where
  "gc_cutoff lib w now =
     (case get_retention_policy lib w of
        (policy, days) \<Rightarrow>
          if policy = ''keep_days'' \<and> days > 0 then
            (case timedelta_days days of
               Inl e \<Rightarrow> Inl e
             | Inr seconds \<Rightarrow>
                 (case datetime_minus lib now seconds of
                    Inl e \<Rightarrow> Inl e
                  | Inr cutoff_date \<Rightarrow> Inr (Some cutoff_date)))
          else if policy = ''delete_after_asr'' then
            (case datetime_minus lib now 3600 of
               Inl e \<Rightarrow> Inl e
             | Inr cutoff_date \<Rightarrow> Inr (Some cutoff_date))
          else Inr None)"

text \<open>Clause B: \<open>vm.cache_policy IS NULL AND e.cached_at < ?\<close>, with the cutoff date bound.\<close>

definition global_expired :: "world \<Rightarrow> datetime option \<Rightarrow> cache_entry \<Rightarrow> bool" where
  "global_expired w cutoff e =
     (case cutoff of
        Some cutoff_date \<Rightarrow>
          policy_of w (source_id e) = None \<and> cached_at e < isoformat_space cutoff_date
      | None \<Rightarrow> False)"

text \<open>\<open>f"{expires_at}"\<close>\<close>

definition str_sql :: "sql_value \<Rightarrow> string" where
  "str_sql v = (case v of SqlNull \<Rightarrow> ''None'' | SqlNumber n \<Rightarrow> n | SqlText s \<Rightarrow> s)"

definition gc_reason :: "py_lib \<Rightarrow> world \<Rightarrow> cache_entry \<Rightarrow> string" where
  "gc_reason lib w e =
     (case get_retention_policy lib w of
        (policy, days) \<Rightarrow>
          if policy_of w (source_id e) = Some ''custom''
          then ''Custom Policy Expired ('' @ str_sql (expires_of w (source_id e)) @ '')''
          else if policy = ''delete_after_asr'' then ''Global Policy (Delete after ASR)''
          else if policy = ''keep_days'' then ''Global Policy (> '' @ str_int days @ '' days)''
          else ''Global Policy Expiry'')"

definition make_candidate :: "py_lib \<Rightarrow> world \<Rightarrow> cache_entry \<Rightarrow> gc_candidate" where
  "make_candidate lib w e =
     \<lparr>cand_source_id = source_id e,
      cand_quality = quality e,
      cand_media_path = media_path e,
      cand_filesize =
        (if file_size e = 0 \<and> path_exists w (media_path e) then getsize w (media_path e)
         else file_size e),
      cand_title = (if truthy (title_of w (source_id e)) then the (title_of w (source_id e))
                    else source_id e),
      cand_reason = gc_reason lib w e,
      cand_policy = (if truthy (policy_of w (source_id e)) then the (policy_of w (source_id e))
                     else ''global'')\<rparr>"

definition get_gc_candidates :: "py_lib \<Rightarrow> world \<Rightarrow> datetime \<Rightarrow> py_exception + gc_candidate list" where
  "get_gc_candidates lib w now =
     (case gc_cutoff lib w now of
        Inl e \<Rightarrow> Inl e
      | Inr cutoff \<Rightarrow>
          (let expired_rows =
                 filter (\<lambda>e. policy_of w (source_id e) \<noteq> Some ''keep_forever'' \<and>
                              (custom_expired w now e \<or> global_expired w cutoff e))
                        (media_cache_entries w)
           in Inr (map (make_candidate lib w)
                     (filter (\<lambda>e. policy_of w (source_id e) \<noteq> Some ''keep_forever'') expired_rows))))"

subsection \<open>The three passes of \<open>run_gc\<close>\<close>

text \<open>Pass 1: delete the candidates (all of them, or those of the target sources).\<close>

fun gc_expired_loop ::
  "world \<Rightarrow> string list option \<Rightarrow> gc_candidate list \<Rightarrow> nat \<Rightarrow> nat \<Rightarrow> world \<times> nat \<times> nat" where
  "gc_expired_loop w targets [] deleted_count freed_bytes = (w, deleted_count, freed_bytes)"
| "gc_expired_loop w targets (item # items) deleted_count freed_bytes =
     (if (case targets of Some ts \<Rightarrow> cand_source_id item \<notin> set ts | None \<Rightarrow> False)
      then gc_expired_loop w targets items deleted_count freed_bytes
      else
        (let w1 = delete_cache_entry w (cand_source_id item) (cand_quality item) in
         if path_exists w1 (cand_media_path item)
         then gc_expired_loop (os_remove w1 (cand_media_path item)) targets items
                (deleted_count + 1) (freed_bytes + cand_filesize item)
         else gc_expired_loop w1 targets items deleted_count freed_bytes))"

text \<open>\<open>posixpath.normpath\<close>\<close>

definition norm_step :: "nat \<Rightarrow> string list \<Rightarrow> string \<Rightarrow> string list" where
  "norm_step initial_slashes new_comps cmp =
     (if cmp = [] \<or> cmp = ''.'' then new_comps
      else if cmp \<noteq> ''..'' \<or> (initial_slashes = 0 \<and> new_comps = []) \<or>
              (new_comps \<noteq> [] \<and> last new_comps = ''..'')
      then new_comps @ [cmp]
      else if new_comps \<noteq> [] then butlast new_comps
      else new_comps)"

definition normpath :: "string \<Rightarrow> string" where
  "normpath p =
     (if p = [] then ''.''
      else
        (let initial_slashes =
               (if starts_with p ''/'' then
                  (if starts_with p ''//'' \<and> \<not> starts_with p ''///'' then 2 else 1)
                else 0 :: nat);
             comps = foldl (norm_step initial_slashes) [] (split_on CHR ''/'' p);
             path = replicate initial_slashes CHR ''/'' @ join_slash comps
         in if path = [] then ''.'' else path))"

text \<open>
  Pass 2: files of the cache directory that no cache row names. \<open>os.listdir\<close> gives the
  names directly under the cache directory; only regular files are removed, and the
  files the model holds directly under \<open>MEDIA_CACHE_DIR\<close> are those spelled
  \<open>MEDIA_CACHE_DIR/name\<close>.
\<close>

definition cache_dir_listing :: "world \<Rightarrow> string list" where
  "cache_dir_listing w =
     [drop (length MEDIA_CACHE_DIR + 1) k.
        (k, n) \<leftarrow> files w,
        starts_with k (MEDIA_CACHE_DIR @ ''/''),
        drop (length MEDIA_CACHE_DIR + 1) k \<noteq> [],
        CHR ''/'' \<notin> set (drop (length MEDIA_CACHE_DIR + 1) k)]"

fun gc_orphans_loop ::
  "world \<Rightarrow> string list \<Rightarrow> string list \<Rightarrow> nat \<Rightarrow> nat \<Rightarrow> world \<times> nat \<times> nat" where
  "gc_orphans_loop w valid_paths [] deleted_count freed_bytes = (w, deleted_count, freed_bytes)"
| "gc_orphans_loop w valid_paths (filename # rest) deleted_count freed_bytes =
     (let full_path = path_join MEDIA_CACHE_DIR filename;
          rel_path = path_join (path_join ''data'' ''media_cache'') filename in
      if normpath rel_path \<notin> set valid_paths \<and> path_exists w full_path
      then gc_orphans_loop (os_remove w full_path) valid_paths rest
             (deleted_count + 1) (freed_bytes + getsize w full_path)
      else gc_orphans_loop w valid_paths rest deleted_count freed_bytes)"

definition gc_orphans :: "world \<Rightarrow> nat \<Rightarrow> nat \<Rightarrow> world \<times> nat \<times> nat" where
  "gc_orphans w deleted_count freed_bytes =
     gc_orphans_loop w (map (\<lambda>e. normpath (media_path e)) (media_cache_entries w))
       (cache_dir_listing w) deleted_count freed_bytes"

text \<open>
  Pass 3: capacity enforcement. The stored capacity goes through \<open>float\<close>; a
  \<open>ValueError\<close> gives \<open>0.0\<close>. The limit is \<open>int(capacity_gb * 1024 * 1024 * 1024)\<close>: for a
  finite capacity the three multiplications are exact unless the product reaches
  \<open>2 ^ 1024\<close>, where it becomes infinity, and \<open>int\<close> of an infinity raises \<open>OverflowError\<close>
  (of a NaN, \<open>ValueError\<close>); otherwise \<open>int\<close> drops the fraction. The rows come
  \<open>ORDER BY e.cached_at ASC\<close>.
\<close>

definition evictable :: "world \<Rightarrow> cache_entry \<Rightarrow> bool" where
  "evictable w e = (policy_of w (source_id e) \<noteq> Some ''keep_forever'')"

definition total_size_bytes :: "world \<Rightarrow> nat" where
  "total_size_bytes w = sum_list (map file_size (media_cache_entries w))"

definition capacity_gb :: "py_lib \<Rightarrow> world \<Rightarrow> py_float" where
  "capacity_gb lib w =
     (case float_of_str lib (get_system_config w ''media_cache_capacity_gb'' ''0'') of
        Some c \<Rightarrow> c
      | None \<Rightarrow> Float 0)"

definition float_positive :: "py_float \<Rightarrow> bool" where
  "float_positive x = (case x of Float c \<Rightarrow> c > 0 | PosInf \<Rightarrow> True | NegInf \<Rightarrow> False | NaN \<Rightarrow> False)"

definition limit_bytes :: "py_float \<Rightarrow> py_exception + int" where
  "limit_bytes x =
     (case x of
        Float c \<Rightarrow>
          if \<bar>c\<bar> * 1024 * 1024 * 1024 \<ge> 2 ^ 1024
          then Inl (OverflowError ''cannot convert float infinity to integer'')
          else Inr (if c \<ge> 0 then \<lfloor>c * 1024 * 1024 * 1024\<rfloor> else \<lceil>c * 1024 * 1024 * 1024\<rceil>)
      | PosInf \<Rightarrow> Inl (OverflowError ''cannot convert float infinity to integer'')
      | NegInf \<Rightarrow> Inl (OverflowError ''cannot convert float infinity to integer'')
      | NaN \<Rightarrow> Inl (PyExc ''ValueError'' ''cannot convert float NaN to integer''))"

fun capacity_loop ::
  "world \<Rightarrow> nat \<Rightarrow> cache_entry list \<Rightarrow> nat \<Rightarrow> nat \<Rightarrow> nat \<Rightarrow> world \<times> nat \<times> nat \<times> nat" where
  "capacity_loop w bytes_to_free [] freed_in_capacity_check deleted_count freed_bytes =
     (w, freed_in_capacity_check, deleted_count, freed_bytes)"
| "capacity_loop w bytes_to_free (row # rows) freed_in_capacity_check deleted_count freed_bytes =
     (if freed_in_capacity_check \<ge> bytes_to_free
      then (w, freed_in_capacity_check, deleted_count, freed_bytes)
      else
        (let w1 = delete_cache_entry w (source_id row) (quality row) in
         if path_exists w1 (media_path row)
         then (let sz = getsize w1 (media_path row) in
               capacity_loop (os_remove w1 (media_path row)) bytes_to_free rows
                 (freed_in_capacity_check + sz) (deleted_count + 1) (freed_bytes + sz))
         else capacity_loop w1 bytes_to_free rows freed_in_capacity_check deleted_count freed_bytes))"

definition capacity_candidates :: "world \<Rightarrow> cache_entry list" where
  "capacity_candidates w = sort_key cached_at (filter (evictable w) (media_cache_entries w))"

definition gc_capacity ::
  "py_lib \<Rightarrow> world \<Rightarrow> nat \<Rightarrow> nat \<Rightarrow> py_exception + world \<times> nat \<times> nat" where
  "gc_capacity lib w deleted_count freed_bytes =
     (if float_positive (capacity_gb lib w) then
        (case limit_bytes (capacity_gb lib w) of
           Inl e \<Rightarrow> Inl e
         | Inr limit \<Rightarrow>
             if int (total_size_bytes w) > limit
             then
               (case capacity_loop w (nat (int (total_size_bytes w) - limit)) (capacity_candidates w)
                       0 deleted_count freed_bytes of
                  (w', freed_in_capacity_check, d, f) \<Rightarrow> Inr (w', d, f))
             else Inr (w, deleted_count, freed_bytes))
      else Inr (w, deleted_count, freed_bytes))"

definition run_gc ::
  "py_lib \<Rightarrow> world \<Rightarrow> string list option \<Rightarrow> datetime \<Rightarrow> py_exception + world \<times> nat \<times> nat" where
  "run_gc lib w target_source_ids now =
     (case get_gc_candidates lib w now of
        Inl e \<Rightarrow> Inl e
      | Inr candidates \<Rightarrow>
          (case gc_expired_loop w target_source_ids candidates 0 0 of
             (w1, d1, f1) \<Rightarrow>
               (case target_source_ids of
                  Some ts \<Rightarrow> Inr (w1, d1, f1)
                | None \<Rightarrow>
                    (case gc_orphans w1 d1 f1 of
                       (w2, d2, f2) \<Rightarrow> gc_capacity lib w2 d2 f2))))"

subsection \<open>Which entries are candidates\<close>

lemma gc_candidates_returns:
  "gc_cutoff lib w now = Inr cutoff \<Longrightarrow>
   get_gc_candidates lib w now =
     Inr (map (make_candidate lib w)
            (filter (\<lambda>e. policy_of w (source_id e) \<noteq> Some ''keep_forever'' \<and>
                          (custom_expired w now e \<or> global_expired w cutoff e))
               (media_cache_entries w)))"
  by (simp add: get_gc_candidates_def Let_def conj_commute cong: conj_cong)

lemma gc_candidates_raises:
  "gc_cutoff lib w now = Inl err \<Longrightarrow> get_gc_candidates lib w now = Inl err"
  by (simp add: get_gc_candidates_def)

text \<open>
  What the candidate query selects, when the cutoff date of the global policy can be
  computed: every cache row whose source has policy \<open>custom\<close> and a stored expiry that
  SQLite sorts before the text of now (a number, or a text that is bytewise smaller), and
  no row whose source has policy \<open>keep_forever\<close>.
\<close>

lemma gc_candidates_selected:
  assumes "e \<in> set (media_cache_entries w)" and "get_gc_candidates lib w now = Inr cs"
  shows "(policy_of w (source_id e) = Some ''custom'' \<and>
          sql_less_text (expires_of w (source_id e)) (isoformat_space now)
            \<longrightarrow> (\<exists>c \<in> set cs.
                    cand_source_id c = source_id e \<and> cand_quality c = quality e \<and>
                    cand_media_path c = media_path e \<and> cand_policy c = ''custom'')) \<and>
         (policy_of w (source_id e) = Some ''keep_forever''
            \<longrightarrow> (\<forall>c \<in> set cs. cand_source_id c \<noteq> source_id e))"
proof -
  obtain cutoff where cut: "gc_cutoff lib w now = Inr cutoff"
    using assms(2) by (cases "gc_cutoff lib w now") (auto simp: get_gc_candidates_def)
  have cs: "cs = map (make_candidate lib w)
            (filter (\<lambda>e. policy_of w (source_id e) \<noteq> Some ''keep_forever'' \<and>
                          (custom_expired w now e \<or> global_expired w cutoff e))
               (media_cache_entries w))"
    using gc_candidates_returns[OF cut] assms(2) by simp
  show ?thesis
  proof (intro conjI impI)
    assume h: "policy_of w (source_id e) = Some ''custom'' \<and>
          sql_less_text (expires_of w (source_id e)) (isoformat_space now)"
    then have "custom_expired w now e" by (simp add: custom_expired_def)
    then have "make_candidate lib w e \<in> set cs"
      using assms(1) h unfolding cs by simp
    moreover have "cand_source_id (make_candidate lib w e) = source_id e"
      "cand_quality (make_candidate lib w e) = quality e"
      "cand_media_path (make_candidate lib w e) = media_path e"
      "cand_policy (make_candidate lib w e) = ''custom''"
      using h by (simp_all add: make_candidate_def)
    ultimately show "\<exists>c \<in> set cs.
                    cand_source_id c = source_id e \<and> cand_quality c = quality e \<and>
                    cand_media_path c = media_path e \<and> cand_policy c = ''custom''"
      by blast
  next
    assume k: "policy_of w (source_id e) = Some ''keep_forever''"
    show "\<forall>c \<in> set cs. cand_source_id c \<noteq> source_id e"
      unfolding cs using k by (auto simp: make_candidate_def)
  qed
qed

text \<open>
  A source with policy \<open>custom\<close> whose expiry was stored as the ISO text
  \<open>2026-11-04T08:00:00\<close>, and the same source with the expiry stored as
  \<open>2026-11-04 08:00:00\<close>.
\<close>

definition iso_expiry_world :: world where
  "iso_expiry_world =
     \<lparr>files = [(''data/media_cache/a.mp3'', 10)], dirs = [''data'', ''data/media_cache''],
      media_cache_entries =
        [\<lparr>source_id = ''A'', quality = ''audio_only'', media_path = ''data/media_cache/a.mp3'',
           file_size = 10, cached_at = ''2026-11-01 09:00:00''\<rparr>],
      video_meta =
        [''A'' \<mapsto> \<lparr>cache_policy = Some ''custom'',
                   cache_expires_at = SqlText ''2026-11-04T08:00:00'', video_title = None\<rparr>],
      system_configs = [''media_retention_policy'' \<mapsto> ''always_keep''],
      transcriptions = Map.empty, task_registry = new_manager\<rparr>"

definition space_expiry_world :: world where
  "space_expiry_world =
     iso_expiry_world\<lparr>video_meta :=
        [''A'' \<mapsto> \<lparr>cache_policy = Some ''custom'',
                   cache_expires_at = SqlText ''2026-11-04 08:00:00'', video_title = None\<rparr>]\<rparr>"

lemma isoformat_demo_now: "isoformat_space demo_now = ''2026-11-04 12:00:00''"
  by (simp add: isoformat_space_def strftime_seconds_def zfill_def demo_now_def str_nat.simps)

lemmas candidates_eval_defs = get_gc_candidates_def gc_cutoff_def get_retention_policy_def
  get_system_config_def custom_expired_def global_expired_def sql_less_text_def policy_of_def
  expires_of_def title_of_def make_candidate_def gc_reason_def str_sql_def Let_def
  isoformat_demo_now path_exists_def getsize_def

text \<open>
  C6: the code fails the claim. At noon of 4 November 2026 the expiry
  \<open>2026-11-04T08:00:00\<close> of source \<open>A\<close> is four hours in the past, and
  \<open>get_gc_candidates\<close> returns no candidate: the query compares the stored text with
  the text \<open>2026-11-04 12:00:00\<close> that is bound for now, byte by byte, and \<open>T\<close> sorts
  after the space. With the expiry stored as \<open>2026-11-04 08:00:00\<close> the entry is a
  candidate.
\<close>

theorem gc_candidates_iso_expiry_missed:
  "policy_of iso_expiry_world ''A'' = Some ''custom'' \<and>
   expires_of iso_expiry_world ''A'' = SqlText ''2026-11-04T08:00:00'' \<and>
   isoformat_space demo_now = ''2026-11-04 12:00:00'' \<and>
   get_gc_candidates demo_lib iso_expiry_world demo_now = Inr [] \<and>
   get_gc_candidates demo_lib space_expiry_world demo_now =
     Inr [\<lparr>cand_source_id = ''A'', cand_quality = ''audio_only'',
           cand_media_path = ''data/media_cache/a.mp3'', cand_filesize = 10, cand_title = ''A'',
           cand_reason = ''Custom Policy Expired (2026-11-04 08:00:00)'',
           cand_policy = ''custom''\<rparr>]"
  by (simp add: candidates_eval_defs iso_expiry_world_def space_expiry_world_def)

text \<open>
  A second way in which \<open>get_gc_candidates\<close> returns no list: under the global policy
  \<open>keep_days:1000000000\<close> the \<open>timedelta\<close> constructor raises \<open>OverflowError\<close> before
  the query runs.
\<close>

lemma gc_candidates_overflow:
  "get_gc_candidates demo_lib
     (space_expiry_world\<lparr>system_configs := [''media_retention_policy'' \<mapsto> ''keep_days:1000000000'']\<rparr>)
     demo_now =
   Inl (OverflowError ''days=1000000000; must have magnitude <= 999999999'')"
  by (simp add: candidates_eval_defs space_expiry_world_def iso_expiry_world_def demo_int_def
      timedelta_days_def str_int_def str_nat.simps)

subsection \<open>Capacity enforcement\<close>

definition entry_key :: "cache_entry \<Rightarrow> string \<times> string" where
  "entry_key e = (source_id e, quality e)"

text \<open>Every row's file is on disk with the recorded size, and no two rows share a file.\<close>

definition size_exact :: "world \<Rightarrow> cache_entry list \<Rightarrow> bool" where
  "size_exact w rows =
     (distinct (map media_path rows) \<and>
      (\<forall>r \<in> set rows. map_of (files w) (media_path r) = Some (file_size r)))"

lemma has_key_entry_key: "has_key (source_id r) (quality r) e = (entry_key e = entry_key r)"
  by (auto simp: has_key_def entry_key_def)

lemma delete_entry_files [simp]:
  "files (delete_cache_entry w s q) = files w"
  "dirs (delete_cache_entry w s q) = dirs w"
  "video_meta (delete_cache_entry w s q) = video_meta w"
  "system_configs (delete_cache_entry w s q) = system_configs w"
  by (simp_all add: delete_cache_entry_def)

lemma delete_entry_entries:
  "media_cache_entries (delete_cache_entry w (source_id r) (quality r)) =
     filter (\<lambda>e. entry_key e \<noteq> entry_key r) (media_cache_entries w)"
  by (simp add: delete_cache_entry_def has_key_entry_key)

lemma path_exists_delete_entry [simp]:
  "path_exists (delete_cache_entry w s q) p = path_exists w p"
  by (simp add: path_exists_def)

lemma getsize_delete_entry [simp]:
  "getsize (delete_cache_entry w s q) p = getsize w p"
  by (simp add: getsize_def)

text \<open>One round of the capacity loop: the row is deleted, and its file when it exists.\<close>

definition evict_row :: "world \<Rightarrow> cache_entry \<Rightarrow> world" where
  "evict_row w r =
     (let w1 = delete_cache_entry w (source_id r) (quality r) in
      if path_exists w1 (media_path r) then os_remove w1 (media_path r) else w1)"

lemma evict_row_entries:
  "media_cache_entries (evict_row w r) = filter (\<lambda>e. entry_key e \<noteq> entry_key r) (media_cache_entries w)"
  by (simp add: evict_row_def Let_def delete_entry_entries os_remove_def)

lemma evict_row_files:
  "map_of (files (evict_row w r)) = (map_of (files w))(media_path r := None)"
  by (auto simp: evict_row_def Let_def os_remove_def delete_conv' path_exists_def)

lemma evict_rows_entries:
  "media_cache_entries (foldl evict_row w rs) =
     filter (\<lambda>e. entry_key e \<notin> entry_key ` set rs) (media_cache_entries w)"
  by (induction rs arbitrary: w) (simp_all add: evict_row_entries conj_commute)

lemma evict_rows_files:
  "map_of (files (foldl evict_row w rs)) p =
     (if p \<in> media_path ` set rs then None else map_of (files w) p)"
  by (induction rs arbitrary: w) (auto simp: evict_row_files)

lemma size_exact_evict:
  assumes "size_exact w (r # rs)"
  shows "size_exact (evict_row w r) rs"
proof -
  have notin: "media_path r \<notin> media_path ` set rs"
    using assms by (simp add: size_exact_def)
  have "media_path x \<noteq> media_path r" if "x \<in> set rs" for x
    using notin imageI[OF that, of media_path] by metis
  then show ?thesis using assms by (simp add: size_exact_def evict_row_files)
qed

lemma capacity_loop_step:
  assumes "size_exact w (r # rs)" and "fr < btf"
  shows "capacity_loop w btf (r # rs) fr d f =
         capacity_loop (evict_row w r) btf rs (fr + file_size r) (d + 1) (f + file_size r)"
proof -
  have "map_of (files w) (media_path r) = Some (file_size r)"
    using assms(1) by (simp add: size_exact_def)
  then have "path_exists w (media_path r)" "getsize w (media_path r) = file_size r"
    by (simp_all add: path_exists_def getsize_def)
  then show ?thesis using assms(2) by (simp add: evict_row_def Let_def)
qed

text \<open>
  The capacity loop evicts a prefix of its rows: it stops at the first row before which
  the bytes freed so far have reached the bytes to free.
\<close>

lemma capacity_loop_exact:
  assumes "size_exact w rows"
  shows "\<exists>k \<le> length rows.
     capacity_loop w btf rows fr d f =
       (foldl evict_row w (take k rows), fr + sum_list (map file_size (take k rows)),
        d + k, f + sum_list (map file_size (take k rows))) \<and>
     (k < length rows \<longrightarrow> btf \<le> fr + sum_list (map file_size (take k rows))) \<and>
     (\<forall>j < k. fr + sum_list (map file_size (take j rows)) < btf)"
  using assms
proof (induction rows arbitrary: w fr d f)
  case Nil
  show ?case by simp
next
  case (Cons r rs)
  show ?case
  proof (cases "btf \<le> fr")
    case True
    then show ?thesis by (intro exI[of _ 0]) simp
  next
    case False
    then have lt: "fr < btf" by simp
    note step = capacity_loop_step[OF Cons.prems lt, of d f]
    have ex: "size_exact (evict_row w r) rs" using Cons.prems by (rule size_exact_evict)
    from Cons.IH[OF ex, of "fr + file_size r" "d + 1" "f + file_size r"]
    obtain k where k: "k \<le> length rs"
      and e: "capacity_loop (evict_row w r) btf rs (fr + file_size r) (d + 1) (f + file_size r) =
         (foldl evict_row (evict_row w r) (take k rs),
          fr + file_size r + sum_list (map file_size (take k rs)),
          d + 1 + k, f + file_size r + sum_list (map file_size (take k rs)))"
      and s: "k < length rs \<longrightarrow> btf \<le> fr + file_size r + sum_list (map file_size (take k rs))"
      and x: "\<forall>j < k. fr + file_size r + sum_list (map file_size (take j rs)) < btf"
      by blast
    have x': "\<forall>j < Suc k. fr + sum_list (map file_size (take j (r # rs))) < btf"
    proof (intro allI impI)
      fix j assume j: "j < Suc k"
      show "fr + sum_list (map file_size (take j (r # rs))) < btf"
      proof (cases j)
        case 0
        then show ?thesis using lt by simp
      next
        case (Suc j')
        then have "j' < k" using j by simp
        with x have "fr + file_size r + sum_list (map file_size (take j' rs)) < btf" by simp
        then show ?thesis using Suc by simp
      qed
    qed
    show ?thesis
      using k e s x' unfolding step
      by (intro exI[of _ "Suc k"]) (simp add: add.assoc)
  qed
qed

text \<open>Passes 1 and 2 of a full run.\<close>

definition gc_sweeps :: "py_lib \<Rightarrow> world \<Rightarrow> datetime \<Rightarrow> py_exception + world \<times> nat \<times> nat" where
  "gc_sweeps lib w now =
     (case get_gc_candidates lib w now of
        Inl e \<Rightarrow> Inl e
      | Inr candidates \<Rightarrow>
          (case gc_expired_loop w None candidates 0 0 of
             (w1, d1, f1) \<Rightarrow> Inr (gc_orphans w1 d1 f1)))"

lemma run_gc_full:
  "run_gc lib w None now =
     (case gc_sweeps lib w now of
        Inl e \<Rightarrow> Inl e
      | Inr (m, d, f) \<Rightarrow> gc_capacity lib m d f)"
  by (simp add: run_gc_def gc_sweeps_def split: sum.splits prod.splits)

text \<open>A world that arose from another by deleting cache rows and files only.\<close>

definition shrunk :: "world \<Rightarrow> world \<Rightarrow> bool" where
  "shrunk w w' =
     ((\<exists>P. media_cache_entries w' = filter P (media_cache_entries w)) \<and>
      (\<forall>p n. map_of (files w') p = Some n \<longrightarrow> map_of (files w) p = Some n) \<and>
      video_meta w' = video_meta w \<and> system_configs w' = system_configs w)"

lemma shrunk_refl: "shrunk w w"
  unfolding shrunk_def by (auto intro: exI[of _ "\<lambda>e. True"])

lemma shrunk_trans: "shrunk a b \<Longrightarrow> shrunk b c \<Longrightarrow> shrunk a c"
proof -
  assume ab: "shrunk a b" and bc: "shrunk b c"
  from ab obtain P where P: "media_cache_entries b = filter P (media_cache_entries a)"
    unfolding shrunk_def by blast
  from bc obtain Q where Q: "media_cache_entries c = filter Q (media_cache_entries b)"
    unfolding shrunk_def by blast
  have "media_cache_entries c = filter (\<lambda>e. P e \<and> Q e) (media_cache_entries a)"
    using P Q by (simp add: conj_commute)
  then show ?thesis using ab bc unfolding shrunk_def by auto
qed

lemma shrunk_delete: "shrunk w (delete_cache_entry w s q)"
  unfolding shrunk_def by (auto simp: delete_cache_entry_def)

lemma shrunk_remove: "shrunk w (os_remove w p)"
  unfolding shrunk_def
  by (auto simp: os_remove_def delete_conv' intro: exI[of _ "\<lambda>e. True"] split: if_splits)

lemma gc_expired_loop_shrunk:
  "shrunk w (fst (gc_expired_loop w targets items d f))"
proof (induction items arbitrary: w d f)
  case Nil
  show ?case by (simp add: shrunk_refl)
next
  case (Cons item items)
  let ?w1 = "delete_cache_entry w (cand_source_id item) (cand_quality item)"
  have a: "shrunk w ?w1" by (rule shrunk_delete)
  have b: "shrunk w (os_remove ?w1 (cand_media_path item))"
    using shrunk_trans[OF a shrunk_remove] .
  show ?case
    using Cons.IH[of w d f] shrunk_trans[OF a Cons.IH[of ?w1 d f]]
      shrunk_trans[OF b Cons.IH[of "os_remove ?w1 (cand_media_path item)" "d + 1"
          "f + cand_filesize item"]]
    by (simp add: Let_def)
qed

lemma gc_orphans_loop_shrunk:
  "shrunk w (fst (gc_orphans_loop w valid names d f))"
proof (induction names arbitrary: w d f)
  case Nil
  show ?case by (simp add: shrunk_refl)
next
  case (Cons nm names)
  let ?p = "path_join MEDIA_CACHE_DIR nm"
  show ?case
    using Cons.IH[of w d f]
      shrunk_trans[OF shrunk_remove Cons.IH[of "os_remove w ?p" "d + 1" "f + getsize w ?p"]]
    by (simp add: Let_def)
qed

lemma gc_sweeps_shrunk: "gc_sweeps lib w now = Inr (m, d, f) \<Longrightarrow> shrunk w m"
proof -
  assume r: "gc_sweeps lib w now = Inr (m, d, f)"
  then obtain cs where cs: "get_gc_candidates lib w now = Inr cs"
    by (cases "get_gc_candidates lib w now") (auto simp: gc_sweeps_def)
  obtain w1 d1 f1 where l: "gc_expired_loop w None cs 0 0 = (w1, d1, f1)"
    by (cases "gc_expired_loop w None cs 0 0") auto
  have a: "shrunk w w1" using gc_expired_loop_shrunk[of w None cs 0 0] l by simp
  have b: "shrunk w1 (fst (gc_orphans w1 d1 f1))"
    unfolding gc_orphans_def by (rule gc_orphans_loop_shrunk)
  have "m = fst (gc_orphans w1 d1 f1)" using r cs l by (simp add: gc_sweeps_def)
  then show ?thesis using shrunk_trans[OF a b] by simp
qed

lemma shrunk_keys:
  "shrunk w w' \<Longrightarrow> distinct (map g (media_cache_entries w)) \<Longrightarrow> distinct (map g (media_cache_entries w'))"
  unfolding shrunk_def by (auto simp: distinct_map_filter)

lemma shrunk_evictable: "shrunk w w' \<Longrightarrow> evictable w' = evictable w"
  unfolding shrunk_def by (auto simp: evictable_def policy_of_def fun_eq_iff)

text \<open>
  Passes 1 and 2 leave the files of the rows they keep: pass 1 removes the files of the
  rows it deletes, and pass 2 removes only files that no row names.
\<close>

lemma gc_expired_loop_keeps_files:
  assumes "distinct (map entry_key rows)" and "distinct (map media_path rows)"
    and "\<forall>c \<in> set items. \<exists>e \<in> set rows.
           cand_source_id c = source_id e \<and> cand_quality c = quality e \<and>
           cand_media_path c = media_path e"
    and "set (media_cache_entries w) \<subseteq> set rows"
    and "\<forall>r \<in> set (media_cache_entries w). map_of (files w) (media_path r) = Some (file_size r)"
  shows "\<forall>r \<in> set (media_cache_entries (fst (gc_expired_loop w targets items d f))).
           map_of (files (fst (gc_expired_loop w targets items d f))) (media_path r) =
             Some (file_size r)"
  using assms(3,4,5)
proof (induction items arbitrary: w d f)
  case Nil
  then show ?case by simp
next
  case (Cons c items)
  from Cons.prems(1) obtain e where e: "e \<in> set rows" "cand_source_id c = source_id e"
    "cand_quality c = quality e" "cand_media_path c = media_path e" by auto
  have rest: "\<forall>c \<in> set items. \<exists>e \<in> set rows.
           cand_source_id c = source_id e \<and> cand_quality c = quality e \<and>
           cand_media_path c = media_path e"
    using Cons.prems(1) by simp
  let ?w1 = "delete_cache_entry w (cand_source_id c) (cand_quality c)"
  let ?w2 = "os_remove ?w1 (cand_media_path c)"
  have ent1: "media_cache_entries ?w1 = filter (\<lambda>x. entry_key x \<noteq> entry_key e) (media_cache_entries w)"
    using e delete_entry_entries[of w e] by simp
  have sub1: "set (media_cache_entries ?w1) \<subseteq> set rows" using Cons.prems(2) ent1 by auto
  have other: "media_path r \<noteq> media_path e" if "r \<in> set (media_cache_entries ?w1)" for r
  proof -
    have "r \<in> set rows" "entry_key r \<noteq> entry_key e" using that sub1 ent1 by auto
    then have "r \<noteq> e" by auto
    then show ?thesis
      using assms(2) \<open>r \<in> set rows\<close> e(1) by (auto simp: distinct_map dest: inj_onD)
  qed
  have files1: "\<forall>r \<in> set (media_cache_entries ?w1). map_of (files ?w1) (media_path r) = Some (file_size r)"
    using Cons.prems(3) ent1 by simp
  have files2: "\<forall>r \<in> set (media_cache_entries ?w2). map_of (files ?w2) (media_path r) = Some (file_size r)"
    using files1 other e(4) by (simp add: os_remove_def delete_conv')
  have sub2: "set (media_cache_entries ?w2) \<subseteq> set rows" using sub1 by simp
  show ?case
    using Cons.IH[OF rest Cons.prems(2,3), of d f]
      Cons.IH[OF rest sub1 files1, of d f]
      Cons.IH[OF rest sub2 files2, of "d + 1" "f + cand_filesize c"]
    by (simp add: Let_def)
qed

lemma cache_rel_path: "path_join (path_join ''data'' ''media_cache'') nm = path_join MEDIA_CACHE_DIR nm"
  by (simp add: path_join_def MEDIA_CACHE_DIR_def)

lemma gc_orphans_loop_keeps_files:
  assumes "\<forall>r \<in> set (media_cache_entries w). normpath (media_path r) \<in> set valid"
    and "\<forall>r \<in> set (media_cache_entries w). map_of (files w) (media_path r) = Some (file_size r)"
  shows "media_cache_entries (fst (gc_orphans_loop w valid names d f)) = media_cache_entries w \<and>
         (\<forall>r \<in> set (media_cache_entries w).
            map_of (files (fst (gc_orphans_loop w valid names d f))) (media_path r) =
              Some (file_size r))"
  using assms
proof (induction names arbitrary: w d f)
  case Nil
  then show ?case by simp
next
  case (Cons nm names)
  let ?p = "path_join MEDIA_CACHE_DIR nm"
  show ?case
  proof (cases "normpath ?p \<notin> set valid \<and> path_exists w ?p")
    case True
    have other: "media_path r \<noteq> ?p" if "r \<in> set (media_cache_entries w)" for r
      using that Cons.prems(1) True by auto
    have f: "\<forall>r \<in> set (media_cache_entries (os_remove w ?p)).
               map_of (files (os_remove w ?p)) (media_path r) = Some (file_size r)"
      using Cons.prems(2) other by (simp add: os_remove_def delete_conv')
    have v: "\<forall>r \<in> set (media_cache_entries (os_remove w ?p)). normpath (media_path r) \<in> set valid"
      using Cons.prems(1) by simp
    from Cons.IH[OF v f, of "d + 1" "f + getsize w ?p"] True
    show ?thesis by (simp add: Let_def cache_rel_path)
  next
    case False
    from Cons.IH[OF Cons.prems, of d f] False
    show ?thesis by (auto simp: Let_def cache_rel_path)
  qed
qed

lemma candidates_are_rows:
  assumes "get_gc_candidates lib w now = Inr cs"
  shows "\<forall>c \<in> set cs. \<exists>e \<in> set (media_cache_entries w).
           cand_source_id c = source_id e \<and> cand_quality c = quality e \<and>
           cand_media_path c = media_path e"
proof -
  obtain cutoff where cut: "gc_cutoff lib w now = Inr cutoff"
    using assms by (cases "gc_cutoff lib w now") (auto simp: get_gc_candidates_def)
  show ?thesis
    using gc_candidates_returns[OF cut] assms by (auto simp: make_candidate_def)
qed

lemma gc_sweeps_exact:
  assumes "gc_sweeps lib w now = Inr (m, d, f)"
    and "distinct (map entry_key (media_cache_entries w))"
    and "size_exact w (media_cache_entries w)"
  shows "size_exact m (media_cache_entries m)"
proof -
  from assms(1) obtain cs where cs: "get_gc_candidates lib w now = Inr cs"
    by (cases "get_gc_candidates lib w now") (auto simp: gc_sweeps_def)
  obtain w1 d1 f1 where l: "gc_expired_loop w None cs 0 0 = (w1, d1, f1)"
    by (cases "gc_expired_loop w None cs 0 0") auto
  have m: "m = fst (gc_orphans w1 d1 f1)" using assms(1) cs l by (simp add: gc_sweeps_def)
  have paths: "distinct (map media_path (media_cache_entries w))"
    and files: "\<forall>r \<in> set (media_cache_entries w). map_of (files w) (media_path r) = Some (file_size r)"
    using assms(3) by (simp_all add: size_exact_def)
  have f1: "\<forall>r \<in> set (media_cache_entries w1). map_of (files w1) (media_path r) = Some (file_size r)"
    using gc_expired_loop_keeps_files[OF assms(2) paths candidates_are_rows[OF cs] subset_refl files,
        of None 0 0] l by simp
  have sh1: "shrunk w w1" using gc_expired_loop_shrunk[of w None cs 0 0] l by simp
  have p1: "distinct (map media_path (media_cache_entries w1))"
    using shrunk_keys[OF sh1 paths] .
  have v: "\<forall>r \<in> set (media_cache_entries w1).
             normpath (media_path r) \<in> set (map (\<lambda>e. normpath (media_path e)) (media_cache_entries w1))"
    by auto
  from gc_orphans_loop_keeps_files[OF v f1, of "cache_dir_listing w1" d1 f1]
  have "media_cache_entries m = media_cache_entries w1"
    and "\<forall>r \<in> set (media_cache_entries w1). map_of (files m) (media_path r) = Some (file_size r)"
    unfolding m gc_orphans_def by simp_all
  then show ?thesis using p1 by (simp add: size_exact_def)
qed

lemma sum_list_without:
  assumes "distinct xs" and "distinct ys" and "set ys \<subseteq> set xs"
  shows "sum_list (map f (filter (\<lambda>e. e \<notin> set ys) xs)) + sum_list (map f ys) =
         (sum_list (map f xs) :: nat)"
proof -
  have d: "distinct (filter (\<lambda>e. e \<notin> set ys) xs)" using assms(1) by simp
  have s: "set (filter (\<lambda>e. e \<notin> set ys) xs) = set xs - set ys" by auto
  have "sum f (set xs) = sum f (set xs - set ys) + sum f (set ys)"
    by (rule sum.subset_diff[OF assms(3)]) simp
  then show ?thesis
    using sum_list_distinct_conv_sum_set[OF assms(1), of f]
      sum_list_distinct_conv_sum_set[OF assms(2), of f]
      sum_list_distinct_conv_sum_set[OF d, of f] s by simp
qed

lemma capacity_candidates_set:
  "set (capacity_candidates w) = {e \<in> set (media_cache_entries w). evictable w e}"
  by (auto simp: capacity_candidates_def)

lemma capacity_candidates_sorted: "sorted (map cached_at (capacity_candidates w))"
  by (simp add: capacity_candidates_def)

lemma capacity_candidates_distinct:
  "distinct (media_cache_entries w) \<Longrightarrow> distinct (capacity_candidates w)"
  by (simp add: capacity_candidates_def)

lemma sorted_take_drop:
  assumes "sorted (map g xs)" and "a \<in> set (take k xs)" and "b \<in> set (drop k xs)"
  shows "g a \<le> g b"
proof -
  have "sorted (map g (take k xs) @ map g (drop k xs))"
    using assms(1) by (simp flip: map_append)
  then show ?thesis using assms(2,3) by (auto simp: sorted_append)
qed

end
